theory Spec2Isabelle
  imports Main
begin

section \<open>JavaScript strings\<close>

text \<open>
  A JavaScript string is a sequence of UTF-16 code units. The regular expressions of
  the sources carry no \<open>u\<close> flag, so they too work on single code units. A code unit
  is modelled by its number; \<open>str\<close> turns an ASCII literal into such a sequence.
\<close>

type_synonym jschar = nat
type_synonym jsstring = "jschar list"

definition str :: "string \<Rightarrow> jsstring" where
  "str s = map of_char s"

definition dash :: jschar where
  "dash = 45"

definition isLowerAZ :: "jschar \<Rightarrow> bool" where
  \<comment> \<open>the class \<open>[a-z]\<close>\<close>
  "isLowerAZ c \<longleftrightarrow> 97 \<le> c \<and> c \<le> 122"

definition isUpperAZ :: "jschar \<Rightarrow> bool" where
  \<comment> \<open>the class \<open>[A-Z]\<close>\<close>
  "isUpperAZ c \<longleftrightarrow> 65 \<le> c \<and> c \<le> 90"

definition isDigit :: "jschar \<Rightarrow> bool" where
  \<comment> \<open>the class \<open>\d\<close>, which is \<open>[0-9]\<close> and nothing else\<close>
  "isDigit c \<longleftrightarrow> 48 \<le> c \<and> c \<le> 57"

definition isSpace :: "jschar \<Rightarrow> bool" where
  \<comment> \<open>the class \<open>\s\<close>: ECMAScript WhiteSpace and LineTerminator, which is also the
      set that \<open>String.prototype.trim\<close> strips\<close>
  "isSpace c \<longleftrightarrow>
     c = 9 \<or> c = 10 \<or> c = 11 \<or> c = 12 \<or> c = 13 \<or> c = 32 \<or> c = 160 \<or> c = 5760 \<or>
     (8192 \<le> c \<and> c \<le> 8202) \<or> c = 8232 \<or> c = 8233 \<or> c = 8239 \<or> c = 8287 \<or>
     c = 12288 \<or> c = 65279"

definition trim :: "jsstring \<Rightarrow> jsstring" where
  "trim s = rev (dropWhile isSpace (rev (dropWhile isSpace s)))"

fun lowerUnit :: "jschar \<Rightarrow> jsstring" where
  "lowerUnit c =
     (if isUpperAZ c then [c + 32]
      else if c = 304 then [105, 775]
      else if c = 8490 then [107]
      else [c])"

definition toLowerCase :: "jsstring \<Rightarrow> jsstring" where
  \<comment> \<open>\<open>String.prototype.toLowerCase\<close>. The Unicode default case conversion sends
      \<open>A\<close>..\<open>Z\<close> to \<open>a\<close>..\<open>z\<close>, U+0130 to \<open>i\<close> followed by U+0307 and U+212A (the
      Kelvin sign) to \<open>k\<close>; these are the only code units whose lower case contains an
      ASCII code unit. Every other code unit that it changes is replaced by code units
      outside ASCII that are no white space; the model leaves those in place, and
      \<open>createSlug\<close>, the only caller, deletes them in its next step either way.\<close>
  "toLowerCase s = concat (map lowerUnit s)"

section \<open>The slug generator (src/database/event.model.ts, createSlug)\<close>

definition keepSlugChars :: "jsstring \<Rightarrow> jsstring" where
  \<comment> \<open>\<open>.replace(/[^a-z0-9\s-]/g, "")\<close>\<close>
  "keepSlugChars s = filter (\<lambda>c. isLowerAZ c \<or> isDigit c \<or> isSpace c \<or> c = dash) s"

function replaceRuns :: "(jschar \<Rightarrow> bool) \<Rightarrow> jsstring \<Rightarrow> jsstring" where
  \<comment> \<open>\<open>.replace(/X+/g, "-")\<close> for a character class \<open>X\<close>: every maximal run of
      code units of the class becomes one dash\<close>
  "replaceRuns p [] = []"
| "replaceRuns p (c # cs) =
     (if p c then dash # replaceRuns p (dropWhile p cs) else c # replaceRuns p cs)"
  by pat_completeness auto
termination
  by (relation "measure (\<lambda>(p, s). length s)")
     (auto simp: less_Suc_eq_le length_dropWhile_le)

definition trimDashes :: "jsstring \<Rightarrow> jsstring" where
  \<comment> \<open>\<open>.replace(/^-|-$/g, "")\<close>: a dash at the start is removed, then a dash at the end
      of what is left (the matches of a global replace do not overlap)\<close>
  "trimDashes s =
     (let s1 = (case s of [] \<Rightarrow> [] | c # cs \<Rightarrow> if c = dash then cs else s)
      in if s1 \<noteq> [] \<and> last s1 = dash then butlast s1 else s1)"

definition slugify :: "jsstring \<Rightarrow> jsstring" where
  \<comment> \<open>the chain of \<open>createSlug\<close> after \<open>toLowerCase\<close>\<close>
  "slugify s =
     trimDashes (replaceRuns (\<lambda>c. c = dash) (replaceRuns isSpace (keepSlugChars (trim s))))"

definition createSlug :: "jsstring \<Rightarrow> jsstring" where
  "createSlug title = slugify (toLowerCase title)"

fun adjDash :: "jsstring \<Rightarrow> bool" where
  \<comment> \<open>two dashes next to each other somewhere in the string\<close>
  "adjDash (c # d # cs) \<longleftrightarrow> (c = dash \<and> d = dash) \<or> adjDash (d # cs)"
| "adjDash _ \<longleftrightarrow> False"

section \<open>Regular expressions\<close>

text \<open>
  The two anchored patterns of the sources (\<open>^...$\<close>, no flags) are written as terms of
  a small regular-expression type and run by a derivative matcher; of an anchored
  pattern, \<open>RegExp.prototype.test\<close> asks whether the whole string matches.
\<close>

datatype rexp =
    Empty
  | Eps
  | Cls "jschar \<Rightarrow> bool"
  | Alt rexp rexp
  | Seq rexp rexp
  | Star rexp

fun nullable :: "rexp \<Rightarrow> bool" where
  "nullable Empty = False"
| "nullable Eps = True"
| "nullable (Cls p) = False"
| "nullable (Alt r s) = (nullable r \<or> nullable s)"
| "nullable (Seq r s) = (nullable r \<and> nullable s)"
| "nullable (Star r) = True"

fun deriv :: "jschar \<Rightarrow> rexp \<Rightarrow> rexp" where
  "deriv c Empty = Empty"
| "deriv c Eps = Empty"
| "deriv c (Cls p) = (if p c then Eps else Empty)"
| "deriv c (Alt r s) = Alt (deriv c r) (deriv c s)"
| "deriv c (Seq r s) =
     (if nullable r then Alt (Seq (deriv c r) s) (deriv c s) else Seq (deriv c r) s)"
| "deriv c (Star r) = Seq (deriv c r) (Star r)"

fun matches :: "rexp \<Rightarrow> jsstring \<Rightarrow> bool" where
  "matches r [] = nullable r"
| "matches r (c # cs) = matches (deriv c r) cs"

definition oneOrMore :: "rexp \<Rightarrow> rexp" where
  \<comment> \<open>\<open>r+\<close>\<close>
  "oneOrMore r = Seq r (Star r)"

definition lit :: "jschar \<Rightarrow> rexp" where
  "lit a = Cls (\<lambda>c. c = a)"

text \<open>The meaning of a pattern, as the set of the strings it matches.\<close>

inductive_set star :: "jsstring set \<Rightarrow> jsstring set" for A :: "jsstring set" where
  star_nil: "[] \<in> star A"
| star_app: "u \<in> A \<Longrightarrow> v \<in> star A \<Longrightarrow> u @ v \<in> star A"

fun lang :: "rexp \<Rightarrow> jsstring set" where
  "lang Empty = {}"
| "lang Eps = {[]}"
| "lang (Cls p) = {[c] | c. p c}"
| "lang (Alt r s) = lang r \<union> lang s"
| "lang (Seq r s) = {u @ v | u v. u \<in> lang r \<and> v \<in> lang s}"
| "lang (Star r) = star (lang r)"

section \<open>Errors\<close>

datatype field =
    F_title | F_description | F_overview | F_image | F_venue | F_location
  | F_date | F_time | F_mode | F_audience | F_organizer

datatype error =
    FieldRequired field
  | InvalidDate
  | InvalidTimeFormat
  | InvalidTimeRange
  | EventMissing
  | InvalidEmail
  | TypeError

fun fieldName :: "field \<Rightarrow> jsstring" where
  "fieldName F_title = str ''title''"
| "fieldName F_description = str ''description''"
| "fieldName F_overview = str ''overview''"
| "fieldName F_image = str ''image''"
| "fieldName F_venue = str ''venue''"
| "fieldName F_location = str ''location''"
| "fieldName F_date = str ''date''"
| "fieldName F_time = str ''time''"
| "fieldName F_mode = str ''mode''"
| "fieldName F_audience = str ''audience''"
| "fieldName F_organizer = str ''organizer''"

fun message :: "error \<Rightarrow> jsstring" where
  \<comment> \<open>the text of the \<open>Error\<close> that the source throws; \<open>TypeError\<close> stands for a method
      call on \<open>undefined\<close>\<close>
  "message (FieldRequired f) =
     str ''Field '' @ [34] @ fieldName f @ [34] @ str '' is required and cannot be empty.''"
| "message InvalidDate = str ''Invalid event date provided''"
| "message InvalidTimeFormat = str ''Invalid event time. Expected format HH:mm (24-hour)''"
| "message InvalidTimeRange = str ''Invalid event time range''"
| "message EventMissing = str ''Cannot create booking: referenced event does not exist.''"
| "message InvalidEmail = str ''Invalid email address provided.''"
| "message TypeError = str ''TypeError''"

section \<open>Numbers and their decimal text\<close>

definition toNumber :: "jsstring \<Rightarrow> int" where
  \<comment> \<open>\<open>Number(s)\<close> for a string of decimal digits\<close>
  "toNumber s = foldl (\<lambda>a c. 10 * a + (int c - 48)) 0 s"

fun decimal :: "nat \<Rightarrow> jsstring" where
  \<comment> \<open>\<open>n.toString()\<close> for a non-negative integer\<close>
  "decimal n = (if n < 10 then [48 + n] else decimal (n div 10) @ [48 + n mod 10])"

declare decimal.simps [simp del]

definition padStart :: "nat \<Rightarrow> jschar \<Rightarrow> jsstring \<Rightarrow> jsstring" where
  \<comment> \<open>\<open>s.padStart(n, c)\<close> for a one-character filler\<close>
  "padStart n c s = replicate (n - length s) c @ s"

section \<open>The time normalizer (src/database/event.model.ts, normalizeTime)\<close>

definition colon :: jschar where
  "colon = 58"

definition timeRegex :: rexp where
  \<comment> \<open>\<open>/^(?<hour>\d{1,2}):(?<minute>\d{2})$/\<close>\<close>
  "timeRegex =
     Seq (Seq (Cls isDigit) (Alt (Cls isDigit) Eps))
         (Seq (lit colon) (Seq (Cls isDigit) (Cls isDigit)))"

definition hourGroup :: "jsstring \<Rightarrow> jsstring" where
  \<comment> \<open>the group \<open>hour\<close> of a match: the digits before the colon\<close>
  "hourGroup s = takeWhile (\<lambda>c. c \<noteq> colon) s"

definition minuteGroup :: "jsstring \<Rightarrow> jsstring" where
  \<comment> \<open>the group \<open>minute\<close> of a match: the digits after the colon\<close>
  "minuteGroup s = drop 1 (dropWhile (\<lambda>c. c \<noteq> colon) s)"

definition normalizeTime :: "jsstring \<Rightarrow> error + jsstring" where
  "normalizeTime time =
     (let trimmed = trim time in
      if \<not> matches timeRegex trimmed then Inl InvalidTimeFormat
      else
        let hour = toNumber (hourGroup trimmed);
            minute = toNumber (minuteGroup trimmed)
        in if hour < 0 \<or> hour > 23 \<or> minute < 0 \<or> minute > 59 then Inl InvalidTimeRange
           else
             let hourStr = padStart 2 48 (decimal (nat hour));
                 minuteStr = padStart 2 48 (decimal (nat minute))
             in Inr (hourStr @ [colon] @ minuteStr))"

section \<open>Dates\<close>

text \<open>
  A \<open>Date\<close> holds a time value: milliseconds since 1970-01-01T00:00:00Z, or \<open>NaN\<close>
  (here \<open>None\<close>). The calendar of the language standard is the proleptic Gregorian one,
  in UTC.
\<close>

definition msPerDay :: int where
  "msPerDay = 86400000"

definition maxTime :: int where
  \<comment> \<open>time values beyond 8.64e15 ms are clipped to \<open>NaN\<close>\<close>
  "maxTime = 8640000000000000"

definition yearOfEra :: "int \<Rightarrow> int" where
  \<comment> \<open>the year within a 400-year era, from the day within the era (eras start on 1 March)\<close>
  "yearOfEra doe = (doe - doe div 1460 + doe div 36524 - doe div 146096) div 365"

definition dayOfYear :: "int \<Rightarrow> int \<Rightarrow> int" where
  \<comment> \<open>the day within the year that starts on 1 March\<close>
  "dayOfYear doe yoe = doe - (365 * yoe + yoe div 4 - yoe div 100)"

definition monthOfDoy :: "int \<Rightarrow> int" where
  \<comment> \<open>the month, 1..12, of a day within the year that starts on 1 March\<close>
  "monthOfDoy doy =
     (if (5 * doy + 2) div 153 < 10 then (5 * doy + 2) div 153 + 3
      else (5 * doy + 2) div 153 - 9)"

definition dateOfDoy :: "int \<Rightarrow> int" where
  \<comment> \<open>the day of the month of a day within the year that starts on 1 March\<close>
  "dateOfDoy doy = doy - (153 * ((5 * doy + 2) div 153) + 2) div 5 + 1"

definition civilOfEra :: "int \<Rightarrow> int \<Rightarrow> int \<times> int \<times> int" where
  "civilOfEra era doe =
     (yearOfEra doe + era * 400 +
        (if monthOfDoy (dayOfYear doe (yearOfEra doe)) \<le> 2 then 1 else 0),
      monthOfDoy (dayOfYear doe (yearOfEra doe)),
      dateOfDoy (dayOfYear doe (yearOfEra doe)))"

definition civilFromDay :: "int \<Rightarrow> int \<times> int \<times> int" where
  \<comment> \<open>year, month (1..12) and day of the month of a day number (days since the epoch):
      \<open>YearFromTime\<close>, \<open>MonthFromTime + 1\<close> and \<open>DateFromTime\<close>\<close>
  "civilFromDay z = civilOfEra ((z + 719468) div 146097) ((z + 719468) mod 146097)"

definition dayOfEra :: "int \<Rightarrow> int \<Rightarrow> int \<Rightarrow> int" where
  \<comment> \<open>the day within the era of a year within the era, a month and a day of the month\<close>
  "dayOfEra yoe m d =
     yoe * 365 + yoe div 4 - yoe div 100 + (153 * ((m + 9) mod 12) + 2) div 5 + d - 1"

definition dayFromCivil :: "int \<Rightarrow> int \<Rightarrow> int \<Rightarrow> int" where
  \<comment> \<open>\<open>MakeDay\<close>: the day number of a year, month (1..12) and day of the month\<close>
  "dayFromCivil y m d =
     (if m \<le> 2
      then ((y - 1) div 400) * 146097 + dayOfEra ((y - 1) mod 400) m d - 719468
      else (y div 400) * 146097 + dayOfEra (y mod 400) m d - 719468)"

definition pad :: "nat \<Rightarrow> int \<Rightarrow> jsstring" where
  \<comment> \<open>a non-negative number in at least \<open>n\<close> decimal digits\<close>
  "pad n v = padStart n 48 (decimal (nat v))"

definition yearString :: "int \<Rightarrow> jsstring" where
  \<comment> \<open>four digits for the years 0 to 9999, a sign and six digits otherwise\<close>
  "yearString y =
     (if 0 \<le> y \<and> y \<le> 9999 then pad 4 y
      else if y < 0 then 45 # pad 6 (- y)
      else 43 # pad 6 y)"

definition isoDate :: "int \<Rightarrow> jsstring" where
  \<comment> \<open>the calendar date of a time value in UTC, as \<open>YYYY-MM-DD\<close>\<close>
  "isoDate t =
     (case civilFromDay (t div msPerDay) of
        (y, m, d) \<Rightarrow> yearString y @ [dash] @ pad 2 m @ [dash] @ pad 2 d)"

definition isoTime :: "int \<Rightarrow> jsstring" where
  \<comment> \<open>the time of day of a time value in UTC, as \<open>HH:mm:ss.sss\<close>\<close>
  "isoTime t =
     pad 2 (t mod msPerDay div 3600000) @ [colon] @ pad 2 (t mod msPerDay div 60000 mod 60) @
     [colon] @ pad 2 (t mod msPerDay div 1000 mod 60) @ [46] @ pad 3 (t mod msPerDay mod 1000)"

definition toISOString :: "int \<Rightarrow> jsstring" where
  \<comment> \<open>\<open>Date.prototype.toISOString\<close> of a valid date\<close>
  "toISOString t = isoDate t @ [84] @ isoTime t @ [90]"

fun splitOn :: "jschar \<Rightarrow> jsstring \<Rightarrow> jsstring list" where
  \<comment> \<open>\<open>s.split(sep)\<close> for a one-character separator\<close>
  "splitOn sep [] = [[]]"
| "splitOn sep (c # cs) =
     (if c = sep then [] # splitOn sep cs
      else (case splitOn sep cs of [] \<Rightarrow> [[c]] | p # ps \<Rightarrow> (c # p) # ps))"

definition newDate :: "(jsstring \<Rightarrow> int option) \<Rightarrow> jsstring \<Rightarrow> int option" where
  \<comment> \<open>\<open>new Date(s)\<close>. What \<open>Date.parse\<close> makes of a string outside the standard
      date-time format is left to the implementation by the language standard, so the
      parser of the host is a parameter; its result is clipped to the range of a
      time value.\<close>
  "newDate parse s =
     (case parse s of
        None \<Rightarrow> None
      | Some t \<Rightarrow> if - maxTime \<le> t \<and> t \<le> maxTime then Some t else None)"

section \<open>The date normalizer (src/database/event.model.ts, normalizeDate)\<close>

definition normalizeDate :: "(jsstring \<Rightarrow> int option) \<Rightarrow> jsstring \<Rightarrow> error + jsstring" where
  \<comment> \<open>\<open>split\<close> returns at least one piece; the branch for none stands for a read of
      \<open>[0]\<close> that finds nothing\<close>
  "normalizeDate parse date =
     (case newDate parse date of
        None \<Rightarrow> Inl InvalidDate
      | Some parsed \<Rightarrow>
          (case splitOn 84 (toISOString parsed) of
             [] \<Rightarrow> Inl TypeError
           | p # ps \<Rightarrow> Inr p))"

text \<open>
  A parser to run the examples with: the \<open>Date.parse\<close> of Node (V8) on a host whose zone
  is \<open>tz\<close> minutes east of UTC.
  \<^item> A string without any digit holds no date: the answer is \<open>NaN\<close>.
  \<^item> A string \<open>Y-M-D\<close> of a year of four digits and a month and a day of one or two
    digits each is read as follows. With a month of two digits in 1..12 and a day of two
    digits in 1..31 it is the date-only form of the language standard: midnight UTC of
    that date, the year as written. Otherwise V8's own reader takes the three numbers:
    if the first is in 1..31 they are month, day and year, else year, month and day; a
    year up to 49 gains 2000 and one from 50 to 99 gains 1900; a month outside 1..12 or
    a day outside 1..31 gives \<open>NaN\<close>; the result is midnight of that date in the zone of
    the host.
    In both readings a day beyond the end of its month runs on into the next month.
  \<^item> Every other string is left to \<open>rest\<close>, the part of the host's parser that is not
    modelled.
\<close>

definition isDigits :: "nat \<Rightarrow> nat \<Rightarrow> jsstring \<Rightarrow> bool" where
  "isDigits lo hi s \<longleftrightarrow> lo \<le> length s \<and> length s \<le> hi \<and> list_all isDigit s"

definition isMonth :: "int \<Rightarrow> bool" where
  "isMonth m \<longleftrightarrow> 1 \<le> m \<and> m \<le> 12"

definition isDay :: "int \<Rightarrow> bool" where
  "isDay d \<longleftrightarrow> 1 \<le> d \<and> d \<le> 31"

definition legacyYear :: "int \<Rightarrow> int" where
  "legacyYear y =
     (if 0 \<le> y \<and> y \<le> 49 then y + 2000
      else if 50 \<le> y \<and> y \<le> 99 then y + 1900
      else y)"

definition localMidnight :: "int \<Rightarrow> int \<Rightarrow> int \<Rightarrow> int \<Rightarrow> int option" where
  "localMidnight tz y m d =
     (if isMonth m \<and> isDay d then Some (dayFromCivil y m d * msPerDay - tz * 60000)
      else None)"

definition legacyDate :: "int \<Rightarrow> int \<Rightarrow> int \<Rightarrow> int \<Rightarrow> int option" where
  \<comment> \<open>three numbers in the order they were written\<close>
  "legacyDate tz a b c =
     (if isDay a then localMidnight tz (legacyYear c) a b
      else localMidnight tz (legacyYear a) b c)"

definition ymdDate :: "int \<Rightarrow> jsstring \<Rightarrow> jsstring \<Rightarrow> int \<Rightarrow> int \<Rightarrow> int \<Rightarrow> int option" where
  "ymdDate tz ms ds y m d =
     (if length ms = 2 \<and> isMonth m \<and> length ds = 2 \<and> isDay d
      then Some (dayFromCivil y m d * msPerDay)
      else legacyDate tz y m d)"

definition nodeDateParse :: "int \<Rightarrow> (jsstring \<Rightarrow> int option) \<Rightarrow> jsstring \<Rightarrow> int option" where
  "nodeDateParse tz rest s =
     (if \<not> list_ex isDigit s then None
      else
        (case splitOn dash s of
           [ys, ms, ds] \<Rightarrow>
             if isDigits 4 4 ys \<and> isDigits 1 2 ms \<and> isDigits 1 2 ds
             then ymdDate tz ms ds (toNumber ys) (toNumber ms) (toNumber ds)
             else rest s
         | _ \<Rightarrow> rest s))"

section \<open>The Event pre-save hook (src/database/event.model.ts)\<close>

text \<open>
  Of an Event document the hook reads and writes the eleven required string fields,
  the slug, and the record of modified paths that \<open>isModified\<close> consults. A field that
  is absent, or holds no string, is \<open>None\<close>. The schema trims what is assigned to
  the slug, the date and the time; what the hook assigns holds no white space at either
  end, so the trimming changes nothing and is left out.
\<close>

record eventDoc =
  fieldValue :: "field \<Rightarrow> jsstring option"
  slug :: "jsstring option"
  modifiedPaths :: "field set"

definition requiredFields :: "field list" where
  "requiredFields =
     [F_title, F_description, F_overview, F_image, F_venue, F_location,
      F_date, F_time, F_mode, F_audience, F_organizer]"

definition isBlank :: "jsstring option \<Rightarrow> bool" where
  \<comment> \<open>\<open>typeof value !== "string" || value.trim().length === 0\<close>\<close>
  "isBlank v = (case v of None \<Rightarrow> True | Some s \<Rightarrow> length (trim s) = 0)"

fun firstBlank :: "eventDoc \<Rightarrow> field list \<Rightarrow> field option" where
  \<comment> \<open>the loop over the required fields: the field at which it throws, if any\<close>
  "firstBlank doc [] = None"
| "firstBlank doc (f # fs) = (if isBlank (fieldValue doc f) then Some f else firstBlank doc fs)"

definition slugFalsy :: "jsstring option \<Rightarrow> bool" where
  \<comment> \<open>\<open>!this.slug\<close>: the slug is absent or the empty string\<close>
  "slugFalsy v = (case v of None \<Rightarrow> True | Some s \<Rightarrow> s = [])"

definition setField :: "eventDoc \<Rightarrow> field \<Rightarrow> jsstring \<Rightarrow> eventDoc" where
  "setField doc f v = doc\<lparr>fieldValue := (fieldValue doc)(f := Some v)\<rparr>"

definition updateSlug :: "eventDoc \<Rightarrow> error + eventDoc" where
  \<comment> \<open>\<open>if (!this.slug || this.isModified("title")) this.slug = createSlug(this.title)\<close>\<close>
  "updateSlug doc =
     (if slugFalsy (slug doc) \<or> F_title \<in> modifiedPaths doc
      then (case fieldValue doc F_title of
              None \<Rightarrow> Inl TypeError
            | Some t \<Rightarrow> Inr (doc\<lparr>slug := Some (createSlug t)\<rparr>))
      else Inr doc)"

definition updateDate :: "(jsstring \<Rightarrow> int option) \<Rightarrow> eventDoc \<Rightarrow> error + eventDoc" where
  \<comment> \<open>\<open>if (this.isModified("date")) this.date = normalizeDate(this.date)\<close>\<close>
  "updateDate parse doc =
     (if F_date \<in> modifiedPaths doc
      then (case fieldValue doc F_date of
              None \<Rightarrow> Inl TypeError
            | Some d \<Rightarrow>
                (case normalizeDate parse d of
                   Inl e \<Rightarrow> Inl e
                 | Inr d' \<Rightarrow> Inr (setField doc F_date d')))
      else Inr doc)"

definition updateTime :: "eventDoc \<Rightarrow> error + eventDoc" where
  \<comment> \<open>\<open>if (this.isModified("time")) this.time = normalizeTime(this.time)\<close>\<close>
  "updateTime doc =
     (if F_time \<in> modifiedPaths doc
      then (case fieldValue doc F_time of
              None \<Rightarrow> Inl TypeError
            | Some t \<Rightarrow>
                (case normalizeTime t of
                   Inl e \<Rightarrow> Inl e
                 | Inr t' \<Rightarrow> Inr (setField doc F_time t')))
      else Inr doc)"

definition eventPreSave :: "(jsstring \<Rightarrow> int option) \<Rightarrow> eventDoc \<Rightarrow> error option \<times> eventDoc" where
  \<comment> \<open>The hook works on the document in place and hands \<open>next\<close> either nothing or the
      error it caught: the result is that error, if any, and the document as the hook
      leaves it. An error rejects the save.\<close>
  "eventPreSave parse doc =
     (case firstBlank doc requiredFields of
        Some f \<Rightarrow> (Some (FieldRequired f), doc)
      | None \<Rightarrow>
          (case updateSlug doc of
             Inl e \<Rightarrow> (Some e, doc)
           | Inr doc1 \<Rightarrow>
               (case updateDate parse doc1 of
                  Inl e \<Rightarrow> (Some e, doc1)
                | Inr doc2 \<Rightarrow>
                    (case updateTime doc2 of
                       Inl e \<Rightarrow> (Some e, doc2)
                     | Inr doc3 \<Rightarrow> (None, doc3)))))"

section \<open>Bookings (src/database/booking.model.ts)\<close>

definition atSign :: jschar where
  "atSign = 64"

definition dot :: jschar where
  "dot = 46"

definition addrChar :: "jschar \<Rightarrow> bool" where
  \<comment> \<open>the class \<open>[^\s@]\<close>\<close>
  "addrChar c \<longleftrightarrow> \<not> isSpace c \<and> c \<noteq> atSign"

definition emailRegex :: rexp where
  \<comment> \<open>\<open>/^[^\s@]+@[^\s@]+\.[^\s@]+$/\<close>\<close>
  "emailRegex =
     Seq (oneOrMore (Cls addrChar))
       (Seq (lit atSign)
          (Seq (oneOrMore (Cls addrChar))
             (Seq (lit dot) (oneOrMore (Cls addrChar)))))"

definition emailValid :: "jsstring \<Rightarrow> bool" where
  \<comment> \<open>\<open>emailRegex.test(value)\<close>\<close>
  "emailValid value = matches emailRegex value"

type_synonym objectId = nat

text \<open>
  A Booking holds the identifier of its Event and an email address, the latter as the
  schema stores it (trimmed and in lower case).
\<close>

record bookingDoc =
  eventId :: objectId
  email :: jsstring

definition bookingPreSave :: "objectId set \<Rightarrow> bookingDoc \<Rightarrow> error option" where
  \<comment> \<open>\<open>events\<close> holds the identifiers of the Event documents of the collection, which
      \<open>Event.exists({ _id: this.eventId })\<close> queries\<close>
  "bookingPreSave events doc =
     (if eventId doc \<notin> events then Some EventMissing
      else if \<not> emailValid (email doc) then Some InvalidEmail
      else None)"

record database =
  events :: "objectId set"
  bookings :: "bookingDoc list"

definition saveBooking :: "database \<Rightarrow> bookingDoc \<Rightarrow> error option \<times> database" where
  \<comment> \<open>\<open>save\<close> of a new Booking: the validator of the schema, then the pre-save hook,
      then the insertion; an error of either stops the save before the insertion\<close>
  "saveBooking db doc =
     (if \<not> emailValid (email doc) then (Some InvalidEmail, db)
      else (case bookingPreSave (events db) doc of
              Some e \<Rightarrow> (Some e, db)
            | None \<Rightarrow> (None, db\<lparr>bookings := bookings db @ [doc]\<rparr>)))"

text \<open>The shape of an address in the words of the specification.\<close>

definition localPart :: "jsstring \<Rightarrow> jsstring" where
  "localPart s = takeWhile (\<lambda>c. c \<noteq> atSign) s"

definition domainPart :: "jsstring \<Rightarrow> jsstring" where
  "domainPart s = drop 1 (dropWhile (\<lambda>c. c \<noteq> atSign) s)"

definition specEmailForm :: "jsstring \<Rightarrow> bool" where
  \<comment> \<open>local-part@domain, the domain with at least one dot, no part with white space or
      a further \<open>@\<close>\<close>
  "specEmailForm s \<longleftrightarrow>
     atSign \<in> set s \<and> localPart s \<noteq> [] \<and> dot \<in> set (domainPart s) \<and>
     atSign \<notin> set (domainPart s) \<and> list_all (\<lambda>c. \<not> isSpace c) s"

definition innerDot :: "jsstring \<Rightarrow> bool" where
  \<comment> \<open>a dot that is neither the first nor the last character\<close>
  "innerDot d \<longleftrightarrow> dot \<in> set (butlast (drop 1 d))"

definition emailForm :: "jsstring \<Rightarrow> bool" where
  "emailForm s \<longleftrightarrow>
     atSign \<in> set s \<and> localPart s \<noteq> [] \<and> innerDot (domainPart s) \<and>
     atSign \<notin> set (domainPart s) \<and> list_all (\<lambda>c. \<not> isSpace c) s"

section \<open>The connection cache (connectToDatabase)\<close>

text \<open>
  JavaScript runs one call at a time up to its next \<open>await\<close>, so the calls of
  \<open>connectToDatabase\<close> interleave only at the \<open>await\<close> of the cached promise. A run is
  a sequence of events: a new call, which runs up to that \<open>await\<close> (or returns at once);
  the settling of a promise of \<open>mongoose.connect\<close> by the driver; and the resumption of
  a waiting call whose promise has settled. The list \<open>promises\<close> holds one entry for
  every call of \<open>mongoose.connect\<close>, that is, for every connection attempt.
\<close>

type_synonym handle = nat

datatype promiseState = Pending | Fulfilled handle | Rejected

datatype caller = Awaiting nat | Returned handle | Threw

record cache =
  conn :: "handle option"
  promise :: "nat option"
  promises :: "promiseState list"
  callers :: "caller list"

datatype event = Call | Settle nat promiseState | Resume nat

definition initialCache :: cache where
  \<comment> \<open>\<open>{ conn: null, promise: null }\<close>, no attempt and no call yet\<close>
  "initialCache = \<lparr>conn = None, promise = None, promises = [], callers = []\<rparr>"

definition startCall :: "cache \<Rightarrow> cache" where
  \<comment> \<open>\<open>connectToDatabase()\<close> up to its \<open>await\<close>\<close>
  "startCall s =
     (case conn s of
        Some h \<Rightarrow> s\<lparr>callers := callers s @ [Returned h]\<rparr>
      | None \<Rightarrow>
          (case promise s of
             None \<Rightarrow>
               s\<lparr>promise := Some (length (promises s)),
                  promises := promises s @ [Pending],
                  callers := callers s @ [Awaiting (length (promises s))]\<rparr>
           | Some p \<Rightarrow> s\<lparr>callers := callers s @ [Awaiting p]\<rparr>))"

definition settle :: "nat \<Rightarrow> promiseState \<Rightarrow> cache \<Rightarrow> cache" where
  \<comment> \<open>a pending promise is fulfilled or rejected; a settled one stays as it is\<close>
  "settle p r s =
     (if p < length (promises s) \<and> promises s ! p = Pending
      then s\<lparr>promises := (promises s)[p := r]\<rparr>
      else s)"

definition resume :: "nat \<Rightarrow> cache \<Rightarrow> cache" where
  \<comment> \<open>\<open>cached.conn = await cached.promise; return cached.conn;\<close> for the call number
      \<open>k\<close>, once its promise has settled\<close>
  "resume k s =
     (if k < length (callers s)
      then (case callers s ! k of
              Awaiting p \<Rightarrow>
                (if p < length (promises s)
                 then (case promises s ! p of
                         Pending \<Rightarrow> s
                       | Fulfilled h \<Rightarrow>
                           s\<lparr>conn := Some h, callers := (callers s)[k := Returned h]\<rparr>
                       | Rejected \<Rightarrow> s\<lparr>callers := (callers s)[k := Threw]\<rparr>)
                 else s)
            | _ \<Rightarrow> s)
      else s)"

fun step :: "cache \<Rightarrow> event \<Rightarrow> cache" where
  "step s Call = startCall s"
| "step s (Settle p r) = settle p r s"
| "step s (Resume k) = resume k s"

definition run :: "event list \<Rightarrow> cache" where
  "run es = foldl step initialCache es"

section \<open>The event-details page (EventDetailsPage)\<close>

datatype json =
    JNull
  | JBool bool
  | JNum int
  | JStr jsstring
  | JArr "json list"
  | JObj "(jsstring \<times> json) list"

text \<open>A value that may be \<open>undefined\<close> is a \<open>json option\<close>.\<close>

fun truthy :: "json option \<Rightarrow> bool" where
  "truthy None = False"
| "truthy (Some JNull) = False"
| "truthy (Some (JBool b)) = b"
| "truthy (Some (JNum n)) = (n \<noteq> 0)"
| "truthy (Some (JStr s)) = (s \<noteq> [])"
| "truthy (Some (JArr xs)) = True"
| "truthy (Some (JObj kvs)) = True"

fun isObject :: "json option \<Rightarrow> bool" where
  \<comment> \<open>\<open>typeof v === "object"\<close>\<close>
  "isObject (Some JNull) = True"
| "isObject (Some (JArr xs)) = True"
| "isObject (Some (JObj kvs)) = True"
| "isObject _ = False"

fun getProp :: "json option \<Rightarrow> string \<Rightarrow> json option" where
  \<comment> \<open>the property of a truthy value under a name that is no array index\<close>
  "getProp (Some (JObj kvs)) k = map_of kvs (str k)"
| "getProp _ k = None"

fun orElse :: "json option \<Rightarrow> json \<Rightarrow> json" where
  \<comment> \<open>\<open>v ?? d\<close>\<close>
  "orElse None d = d"
| "orElse (Some JNull) d = d"
| "orElse (Some v) d = v"

record response =
  status :: nat
  statusText :: jsstring
  body :: "json option"

definition ok :: "response \<Rightarrow> bool" where
  \<comment> \<open>\<open>response.ok\<close>: the status is in the range 200 to 299\<close>
  "ok r \<longleftrightarrow> 200 \<le> status r \<and> status r \<le> 299"

record eventView =
  v_description :: json
  v_image :: json
  v_overview :: json
  v_date :: json
  v_time :: json
  v_location :: json
  v_mode :: json
  v_audience :: json
  v_agenda :: json
  v_organizer :: json
  v_tags :: json
  v_similar :: "json list"

datatype view = EventUnavailable | EventSection eventView

datatype logEntry =
    FailedToFetch nat jsstring
  | ErrorParsingJson
  | InvalidPayload
  | MissingDescription
  | ErrorFetching

datatype signal = NotFoundSignal | Failure

datatype outcome = NotFound | Rendered view

definition eventSection :: "json option \<Rightarrow> json list \<Rightarrow> eventView" where
  "eventSection e sims =
     \<lparr>v_description = orElse (getProp e ''description'') JNull,
      v_image = orElse (getProp e ''image'') (JStr (str ''/default-banner.png'')),
      v_overview = orElse (getProp e ''overview'') (JStr (str ''No overview available.'')),
      v_date = orElse (getProp e ''date'') (JStr (str ''TBA'')),
      v_time = orElse (getProp e ''time'') (JStr (str ''TBA'')),
      v_location = orElse (getProp e ''location'') (JStr (str ''TBA'')),
      v_mode = orElse (getProp e ''mode'') (JStr (str ''TBA'')),
      v_audience = orElse (getProp e ''audience'') (JStr (str ''TBA'')),
      v_agenda = orElse (getProp e ''agenda'') (JArr []),
      v_organizer = orElse (getProp e ''organizer'') (JStr (str ''No organizer info.'')),
      v_tags = orElse (getProp e ''tags'') (JArr []),
      v_similar = sims\<rparr>"

definition pageBody :: "response option \<Rightarrow> json list option \<Rightarrow> logEntry list \<times> (signal + view)" where
  \<comment> \<open>The \<open>try\<close> block. \<open>fetched\<close> is what \<open>fetch\<close> gives (\<open>None\<close>: it rejects), the
      \<open>body\<close> of a response what \<open>response.json()\<close> gives (\<open>None\<close>: it rejects), and
      \<open>similar\<close> what \<open>getSimilarEventsBySlug\<close> gives (\<open>None\<close>: it rejects).
      \<open>notFound()\<close> of next/navigation returns nothing: it throws a signal.\<close>
  "pageBody fetched similar =
     (case fetched of
        None \<Rightarrow> ([], Inl Failure)
      | Some r \<Rightarrow>
          if \<not> ok r then
            (if status r = 404 then ([], Inl NotFoundSignal)
             else ([FailedToFetch (status r) (statusText r)], Inr EventUnavailable))
          else if body r = None then ([ErrorParsingJson], Inl NotFoundSignal)
          else if \<not> truthy (body r) \<or> \<not> isObject (body r) \<or>
                  \<not> truthy (getProp (body r) ''event'') \<or> \<not> isObject (getProp (body r) ''event'')
            then ([InvalidPayload], Inl NotFoundSignal)
          else if \<not> truthy (getProp (getProp (body r) ''event'') ''description'')
            then ([MissingDescription], Inl NotFoundSignal)
          else (case similar of
                  None \<Rightarrow> ([], Inl Failure)
                | Some sims \<Rightarrow> ([], Inr (EventSection (eventSection (getProp (body r) ''event'') sims)))))"

definition EventDetailsPage :: "response option \<Rightarrow> json list option \<Rightarrow> logEntry list \<times> outcome" where
  \<comment> \<open>The \<open>catch\<close> around the block catches whatever is thrown inside it, the signal of
      \<open>notFound()\<close> included, logs it and calls \<open>notFound()\<close> itself.\<close>
  "EventDetailsPage fetched similar =
     (case pageBody fetched similar of
        (log, Inl e) \<Rightarrow> (log @ [ErrorFetching], NotFound)
      | (log, Inr v) \<Rightarrow> (log, Rendered v))"

section \<open>Sample data\<close>

definition asciiAlnum :: "jschar \<Rightarrow> bool" where
  \<comment> \<open>an ASCII letter or digit\<close>
  "asciiAlnum c \<longleftrightarrow> isLowerAZ c \<or> isUpperAZ c \<or> isDigit c"

definition sampleEvent :: eventDoc where
  \<comment> \<open>a new Event with every required field filled in and no slug yet\<close>
  "sampleEvent =
     \<lparr>fieldValue = (\<lambda>f. Some (str ''text''))
        (F_title := Some (str ''React Summit 2025''),
         F_date := Some (str ''2025-06-13''),
         F_time := Some (str ''9:30'')),
      slug = None,
      modifiedPaths = {F_title, F_date, F_time}\<rparr>"

definition sampleDatabase :: database where
  "sampleDatabase = \<lparr>events = {1, 2}, bookings = []\<rparr>"

section \<open>The invariant of the connection cache\<close>

definition cacheInv :: "cache \<Rightarrow> bool" where
  \<comment> \<open>at most one attempt; the cached promise is that attempt; a cached handle, a
      returned handle and a thrown error are what the attempt settled to\<close>
  "cacheInv s \<longleftrightarrow>
     length (promises s) \<le> 1 \<and>
     (promise s = None \<longrightarrow> promises s = [] \<and> callers s = [] \<and> conn s = None) \<and>
     (\<forall>p. promise s = Some p \<longrightarrow> p = 0 \<and> length (promises s) = 1) \<and>
     (\<forall>h. conn s = Some h \<longrightarrow> promises s = [Fulfilled h]) \<and>
     (\<forall>p. Awaiting p \<in> set (callers s) \<longrightarrow> p = 0) \<and>
     (\<forall>h. Returned h \<in> set (callers s) \<longrightarrow> promises s = [Fulfilled h]) \<and>
     (Threw \<in> set (callers s) \<longrightarrow> promises s = [Rejected])"

section \<open>Unfolding the definitions on concrete inputs\<close>

lemmas js_defs =
  str_def trim_def isSpace_def isUpperAZ_def isLowerAZ_def isDigit_def dash_def colon_def
  atSign_def dot_def toNumber_def padStart_def decimal.simps lit_def oneOrMore_def

lemmas slug_defs =
  createSlug_def slugify_def toLowerCase_def keepSlugChars_def trimDashes_def

lemmas time_defs =
  normalizeTime_def timeRegex_def hourGroup_def minuteGroup_def

lemmas date_defs =
  normalizeDate_def newDate_def nodeDateParse_def ymdDate_def legacyDate_def localMidnight_def
  legacyYear_def isMonth_def isDay_def toISOString_def isoDate_def
  isoTime_def yearString_def pad_def civilFromDay_def civilOfEra_def yearOfEra_def
  dayOfYear_def monthOfDoy_def dateOfDoy_def dayFromCivil_def dayOfEra_def msPerDay_def
  maxTime_def isDigits_def

lemmas email_defs =
  emailValid_def emailRegex_def addrChar_def specEmailForm_def emailForm_def innerDot_def
  localPart_def domainPart_def

lemmas event_defs =
  eventPreSave_def updateSlug_def updateDate_def updateTime_def setField_def requiredFields_def
  isBlank_def slugFalsy_def sampleEvent_def

section \<open>Properties of the slug generator\<close>

lemma adjDash_nth:
  "\<not> adjDash s \<Longrightarrow> Suc i < length s \<Longrightarrow> \<not> (s ! i = dash \<and> s ! Suc i = dash)"
proof (induction s arbitrary: i rule: adjDash.induct)
  case (1 c d cs)
  then show ?case by (cases i) auto
qed auto

lemma adjDash_Cons:
  "adjDash (c # s) \<longleftrightarrow> (s \<noteq> [] \<and> c = dash \<and> hd s = dash) \<or> adjDash s"
  by (cases s) auto

lemma set_keepSlugChars:
  "c \<in> set (keepSlugChars s) \<Longrightarrow> isLowerAZ c \<or> isDigit c \<or> isSpace c \<or> c = dash"
  by (auto simp: keepSlugChars_def)

lemma set_replaceRuns:
  "set (replaceRuns p s) \<subseteq> {c \<in> set s. \<not> p c} \<union> {dash}"
proof (induction p s rule: replaceRuns.induct)
  case (2 p c cs)
  have "set (dropWhile p cs) \<subseteq> set cs"
    by (simp add: set_dropWhileD subsetI)
  with 2 show ?case by auto
qed simp

lemma replaceRuns_dropWhile:
  "replaceRuns p (dropWhile p cs) = [] \<or> \<not> p (hd (replaceRuns p (dropWhile p cs)))"
proof (cases "dropWhile p cs")
  case Nil
  show ?thesis unfolding Nil by simp
next
  case (Cons x xs)
  then have "\<not> p x" using hd_dropWhile[of p cs] by auto
  with Cons show ?thesis by simp
qed

lemma no_adjDash_replaceRuns: "\<not> adjDash (replaceRuns (\<lambda>c. c = dash) s)"
proof (induction "\<lambda>c. c = dash" s rule: replaceRuns.induct)
  case (2 c cs)
  show ?case
  proof (cases "c = dash")
    case True
    with 2 replaceRuns_dropWhile[of "\<lambda>c. c = dash" cs] show ?thesis
      by (auto simp: adjDash_Cons)
  next
    case False
    with 2 show ?thesis by (auto simp: adjDash_Cons)
  qed
qed simp

lemma set_trimDashes: "set (trimDashes s) \<subseteq> set s"
  by (auto simp: trimDashes_def Let_def split: list.splits dest: in_set_butlastD)

lemma adjDash_butlast: "\<not> adjDash s \<Longrightarrow> \<not> adjDash (butlast s)"
  by (induction s rule: adjDash.induct) (auto split: if_splits)

lemma no_adjDash_trimDashes: "\<not> adjDash s \<Longrightarrow> \<not> adjDash (trimDashes s)"
  by (cases s) (auto simp: trimDashes_def Let_def adjDash_Cons dest: adjDash_butlast)

lemma last_butlast_adj:
  "\<not> adjDash s \<Longrightarrow> butlast s \<noteq> [] \<Longrightarrow> last s = dash \<Longrightarrow> last (butlast s) \<noteq> dash"
  by (induction s rule: adjDash.induct) (auto split: if_splits)

lemma ends_trimDashes:
  assumes "\<not> adjDash s" and "trimDashes s \<noteq> []"
  shows "hd (trimDashes s) \<noteq> dash \<and> last (trimDashes s) \<noteq> dash"
proof -
  define s1 where "s1 = (case s of [] \<Rightarrow> [] | c # cs \<Rightarrow> if c = dash then cs else s)"
  have t: "trimDashes s = (if s1 \<noteq> [] \<and> last s1 = dash then butlast s1 else s1)"
    by (simp add: trimDashes_def s1_def)
  have n1: "\<not> adjDash s1"
    using assms(1) by (cases s) (auto simp: s1_def adjDash_Cons)
  have h1: "s1 \<noteq> [] \<Longrightarrow> hd s1 \<noteq> dash"
    using assms(1) by (cases s) (auto simp: s1_def adjDash_Cons)
  show ?thesis
  proof (cases "s1 \<noteq> [] \<and> last s1 = dash")
    case True
    then have e: "trimDashes s = butlast s1" using t by simp
    with assms(2) have ne: "butlast s1 \<noteq> []" by simp
    have "hd (butlast s1) = hd s1" using ne by (cases s1) auto
    moreover have "last (butlast s1) \<noteq> dash"
      using last_butlast_adj[OF n1 ne] True by simp
    ultimately show ?thesis using e h1 True by simp
  next
    case False
    then have e: "trimDashes s = s1" using t by auto
    with assms(2) False h1 show ?thesis by auto
  qed
qed

lemma slugify_chars:
  assumes "c \<in> set (slugify s)"
  shows "isLowerAZ c \<or> isDigit c \<or> c = dash"
proof -
  let ?k = "keepSlugChars (trim s)"
  from assms have "c \<in> set (replaceRuns (\<lambda>c. c = dash) (replaceRuns isSpace ?k))"
    using set_trimDashes by (auto simp: slugify_def)
  then have "c = dash \<or> c \<in> set (replaceRuns isSpace ?k)"
    using set_replaceRuns[of "\<lambda>c. c = dash"] by auto
  then have "c = dash \<or> (c \<in> set ?k \<and> \<not> isSpace c)"
    using set_replaceRuns[of isSpace ?k] by auto
  then show ?thesis using set_keepSlugChars[of c "trim s"] by auto
qed

lemma slugify_no_adjDash: "\<not> adjDash (slugify s)"
  unfolding slugify_def by (rule no_adjDash_trimDashes) (rule no_adjDash_replaceRuns)

lemma slugify_ends:
  "slugify s \<noteq> [] \<Longrightarrow> hd (slugify s) \<noteq> dash \<and> last (slugify s) \<noteq> dash"
  unfolding slugify_def by (rule ends_trimDashes) (rule no_adjDash_replaceRuns)

text \<open>
  C1. For every title, the slug that \<open>createSlug\<close> returns holds only lower-case
  letters \<open>a\<close>..\<open>z\<close>, digits and dashes, holds no two dashes in a row, and neither starts
  nor ends with a dash.
\<close>

theorem createSlug_shape:
  "(\<forall>c \<in> set (createSlug T). isLowerAZ c \<or> isDigit c \<or> c = dash) \<and>
   (\<forall>i. Suc i < length (createSlug T) \<longrightarrow>
        \<not> (createSlug T ! i = dash \<and> createSlug T ! Suc i = dash)) \<and>
   (createSlug T \<noteq> [] \<longrightarrow> hd (createSlug T) \<noteq> dash \<and> last (createSlug T) \<noteq> dash)"
proof (intro conjI ballI allI impI)
  fix c assume "c \<in> set (createSlug T)"
  then show "isLowerAZ c \<or> isDigit c \<or> c = dash"
    unfolding createSlug_def by (rule slugify_chars)
next
  fix i assume "Suc i < length (createSlug T)"
  then show "\<not> (createSlug T ! i = dash \<and> createSlug T ! Suc i = dash)"
    unfolding createSlug_def by (rule adjDash_nth[OF slugify_no_adjDash])
next
  assume "createSlug T \<noteq> []"
  then show "hd (createSlug T) \<noteq> dash" "last (createSlug T) \<noteq> dash"
    unfolding createSlug_def using slugify_ends by auto
qed

theorem createSlug_shape_witness:
  "createSlug (str '' Hello,  World -- 2024! '') = str ''hello-world-2024'' \<and>
   hd (createSlug (str '' Hello,  World -- 2024! '')) \<noteq> dash \<and>
   last (createSlug (str '' Hello,  World -- 2024! '')) \<noteq> dash \<and>
   \<not> (createSlug (str '' Hello,  World -- 2024! '') ! 5 = dash \<and>
      createSlug (str '' Hello,  World -- 2024! '') ! 6 = dash)"
  using createSlug_shape [of "str '' Hello,  World -- 2024! ''"]
  by (simp add: js_defs slug_defs)

section \<open>The matcher decides the language of a pattern\<close>

lemma nullable_lang: "nullable r \<longleftrightarrow> [] \<in> lang r"
  by (induction r) (auto intro: star.star_nil)

lemma lang_SeqI: "u \<in> lang r \<Longrightarrow> v \<in> lang s \<Longrightarrow> u @ v \<in> lang (Seq r s)"
  by auto

lemma star_Cons:
  "c # w \<in> star A \<longleftrightarrow> (\<exists>u v. w = u @ v \<and> c # u \<in> A \<and> v \<in> star A)"
proof
  assume "c # w \<in> star A"
  then show "\<exists>u v. w = u @ v \<and> c # u \<in> A \<and> v \<in> star A"
  proof (induction "c # w" rule: star.induct)
    case (star_app u v)
    show ?case
    proof (cases u)
      case Nil
      with star_app show ?thesis by simp
    next
      case (Cons a u')
      with star_app.hyps(1,2,4) show ?thesis by auto
    qed
  qed
next
  assume "\<exists>u v. w = u @ v \<and> c # u \<in> A \<and> v \<in> star A"
  then obtain u v where "w = u @ v" "c # u \<in> A" "v \<in> star A" by blast
  then show "c # w \<in> star A" using star.star_app[of "c # u" A v] by simp
qed

lemma lang_deriv: "lang (deriv c r) = {w. c # w \<in> lang r}"
proof (induction r)
  case (Seq r s)
  show ?case
  proof (intro set_eqI iffI)
    fix w assume "w \<in> lang (deriv c (Seq r s))"
    then consider (a) u v where "w = u @ v" "c # u \<in> lang r" "v \<in> lang s"
      | (b) "nullable r" "c # w \<in> lang s"
      using Seq by (auto split: if_splits)
    then show "w \<in> {w. c # w \<in> lang (Seq r s)}"
    proof cases
      case a
      then show ?thesis using lang_SeqI[of "c # u" r v s] by simp
    next
      case b
      then have "[] \<in> lang r" by (simp add: nullable_lang)
      with b show ?thesis using lang_SeqI[of "[]" r "c # w" s] by simp
    qed
  next
    fix w assume "w \<in> {w. c # w \<in> lang (Seq r s)}"
    then obtain u v where uv: "c # w = u @ v" "u \<in> lang r" "v \<in> lang s" by auto
    show "w \<in> lang (deriv c (Seq r s))"
    proof (cases u)
      case Nil
      with uv have "nullable r" "c # w \<in> lang s" by (auto simp: nullable_lang)
      with Seq show ?thesis by auto
    next
      case (Cons a u')
      with uv have "w = u' @ v" "c # u' \<in> lang r" by auto
      with uv(3) Seq show ?thesis by auto
    qed
  qed
next
  case (Star r)
  then show ?case by (auto simp: star_Cons)
qed auto

lemma matches_lang: "matches r s \<longleftrightarrow> s \<in> lang r"
  by (induction s arbitrary: r) (auto simp: nullable_lang lang_deriv)

lemma star_Cls: "star {[c] | c. p c} = {w. list_all p w}"
proof (intro set_eqI iffI)
  fix w assume "w \<in> star {[c] | c. p c}"
  then show "w \<in> {w. list_all p w}" by (induction rule: star.induct) auto
next
  fix w assume "w \<in> {w. list_all p w}"
  then have "list_all p w" by simp
  then show "w \<in> star {[c] | c. p c}"
  proof (induction w)
    case Nil
    show ?case by (rule star.star_nil)
  next
    case (Cons a w)
    then have "[a] \<in> {[c] | c. p c}" "w \<in> star {[c] | c. p c}" by auto
    then have "[a] @ w \<in> star {[c] | c. p c}" by (rule star.star_app)
    then show ?case by simp
  qed
qed

lemma lang_oneOrMore_Cls: "lang (oneOrMore (Cls p)) = {w. w \<noteq> [] \<and> list_all p w}"
proof (intro set_eqI iffI)
  fix w assume "w \<in> lang (oneOrMore (Cls p))"
  then show "w \<in> {w. w \<noteq> [] \<and> list_all p w}" by (auto simp: oneOrMore_def star_Cls)
next
  fix w assume "w \<in> {w. w \<noteq> [] \<and> list_all p w}"
  then obtain a w' where w: "w = [a] @ w'" "p a" "list_all p w'" by (cases w) auto
  then have "[a] \<in> lang (Cls p)" "w' \<in> lang (Star (Cls p))" by (auto simp: star_Cls)
  then show "w \<in> lang (oneOrMore (Cls p))"
    unfolding oneOrMore_def w(1) by (rule lang_SeqI)
qed

lemma lang_lit: "lang (lit a) = {[a]}"
  by (auto simp: lit_def)

lemma lang_timeRegex:
  "s \<in> lang timeRegex \<longleftrightarrow>
     (\<exists>a b c d. isDigit a \<and> isDigit b \<and> isDigit c \<and> isDigit d \<and>
        (s = [a, b, colon, c, d] \<or> s = [b, colon, c, d]))"
proof
  assume "s \<in> lang timeRegex"
  then show "\<exists>a b c d. isDigit a \<and> isDigit b \<and> isDigit c \<and> isDigit d \<and>
        (s = [a, b, colon, c, d] \<or> s = [b, colon, c, d])"
    by (auto simp: timeRegex_def lit_def)
next
  assume "\<exists>a b c d. isDigit a \<and> isDigit b \<and> isDigit c \<and> isDigit d \<and>
        (s = [a, b, colon, c, d] \<or> s = [b, colon, c, d])"
  then obtain a b c d where dg: "isDigit a" "isDigit b" "isDigit c" "isDigit d"
    and s: "s = [a, b, colon, c, d] \<or> s = [b, colon, c, d]" by blast
  have nc: "\<not> isDigit colon" by (simp add: isDigit_def colon_def)
  from s dg nc have "matches timeRegex s"
    by (auto simp: timeRegex_def lit_def)
  then show "s \<in> lang timeRegex" by (simp add: matches_lang)
qed

lemma lang_emailRegex:
  "s \<in> lang emailRegex \<longleftrightarrow>
     (\<exists>l d t. s = l @ [atSign] @ d @ [dot] @ t \<and> l \<noteq> [] \<and> d \<noteq> [] \<and> t \<noteq> [] \<and>
        list_all addrChar l \<and> list_all addrChar d \<and> list_all addrChar t)"
proof
  assume "s \<in> lang emailRegex"
  then show "\<exists>l d t. s = l @ [atSign] @ d @ [dot] @ t \<and> l \<noteq> [] \<and> d \<noteq> [] \<and> t \<noteq> [] \<and>
        list_all addrChar l \<and> list_all addrChar d \<and> list_all addrChar t"
    unfolding emailRegex_def lang.simps(5) lang_oneOrMore_Cls lang_lit by auto
next
  assume "\<exists>l d t. s = l @ [atSign] @ d @ [dot] @ t \<and> l \<noteq> [] \<and> d \<noteq> [] \<and> t \<noteq> [] \<and>
        list_all addrChar l \<and> list_all addrChar d \<and> list_all addrChar t"
  then obtain l d t where s: "s = l @ [atSign] @ d @ [dot] @ t"
    and ne: "l \<noteq> []" "d \<noteq> []" "t \<noteq> []"
    and ac: "list_all addrChar l" "list_all addrChar d" "list_all addrChar t" by blast
  have l: "l \<in> lang (oneOrMore (Cls addrChar))" and d: "d \<in> lang (oneOrMore (Cls addrChar))"
    and t: "t \<in> lang (oneOrMore (Cls addrChar))"
    using ne ac by (simp_all add: lang_oneOrMore_Cls)
  have a: "[atSign] \<in> lang (lit atSign)" and o: "[dot] \<in> lang (lit dot)"
    by (simp_all add: lang_lit)
  show "s \<in> lang emailRegex"
    unfolding emailRegex_def s
    by (rule lang_SeqI[OF l lang_SeqI[OF a lang_SeqI[OF d lang_SeqI[OF o t]]]])
qed

section \<open>Properties of the time normalizer\<close>

lemma toNumber_one: "toNumber [b] = int b - 48"
  by (simp add: toNumber_def)

lemma toNumber_two: "toNumber [a, b] = 10 * (int a - 48) + (int b - 48)"
  by (simp add: toNumber_def)

lemma pad_one_digit: "isDigit b \<Longrightarrow> padStart 2 48 (decimal (nat (toNumber [b]))) = [48, b]"
proof -
  assume b: "isDigit b"
  then have n: "nat (toNumber [b]) = b - 48" by (simp add: toNumber_one isDigit_def)
  from b have "b - 48 < 10" by (auto simp: isDigit_def)
  then have "decimal (b - 48) = [48 + (b - 48)]" by (simp add: decimal.simps)
  with b n show ?thesis by (simp add: padStart_def isDigit_def)
qed

lemma pad_two_digits:
  assumes "isDigit a" "isDigit b"
  shows "padStart 2 48 (decimal (nat (toNumber [a, b]))) = [a, b]"
proof -
  define h where "h = 10 * (a - 48) + (b - 48)"
  from assms have n: "nat (toNumber [a, b]) = h"
    by (simp add: toNumber_two isDigit_def h_def) linarith
  from assms have b10: "b - 48 < 10" and a10: "a - 48 < 10" by (auto simp: isDigit_def)
  show ?thesis
  proof (cases "a = 48")
    case True
    then have "h = b - 48" by (simp add: h_def)
    with b10 have "decimal h = [48 + (b - 48)]" by (simp add: decimal.simps)
    with assms True n show ?thesis by (simp add: padStart_def isDigit_def)
  next
    case False
    with assms have "10 \<le> h" by (auto simp: h_def isDigit_def)
    moreover have "h div 10 = a - 48" "h mod 10 = b - 48" using b10 by (auto simp: h_def)
    ultimately have "decimal h = decimal (a - 48) @ [48 + (b - 48)]"
      using decimal.simps[of h] by simp
    moreover have "decimal (a - 48) = [48 + (a - 48)]" using a10 by (simp add: decimal.simps)
    ultimately show ?thesis using assms n by (simp add: padStart_def isDigit_def)
  qed
qed

lemma digit_not_colon: "isDigit a \<Longrightarrow> a \<noteq> colon"
  by (auto simp: isDigit_def colon_def)

lemma normalizeTime_two:
  assumes "isDigit a" "isDigit b" "isDigit c" "isDigit d" "trim t = [a, b, colon, c, d]"
  shows "normalizeTime t =
     (if 10 * (a - 48) + (b - 48) > 23 \<or> 10 * (c - 48) + (d - 48) > 59 then Inl InvalidTimeRange
      else Inr [a, b, colon, c, d])"
proof -
  have m: "matches timeRegex (trim t)"
    using assms by (auto simp: matches_lang lang_timeRegex)
  have g: "hourGroup (trim t) = [a, b]" "minuteGroup (trim t) = [c, d]"
    using assms digit_not_colon by (auto simp: hourGroup_def minuteGroup_def)
  have h: "toNumber [a, b] = int (10 * (a - 48) + (b - 48))"
    and mi: "toNumber [c, d] = int (10 * (c - 48) + (d - 48))"
    using assms by (auto simp: toNumber_two isDigit_def)
  show ?thesis
    unfolding normalizeTime_def Let_def g
    using m pad_two_digits[OF assms(1,2)] pad_two_digits[OF assms(3,4)]
    by (simp add: h mi del: of_nat_add of_nat_mult)
qed

lemma normalizeTime_one:
  assumes "isDigit b" "isDigit c" "isDigit d" "trim t = [b, colon, c, d]"
  shows "normalizeTime t =
     (if 10 * (c - 48) + (d - 48) > 59 then Inl InvalidTimeRange
      else Inr [48, b, colon, c, d])"
proof -
  have m: "matches timeRegex (trim t)"
    using assms by (auto simp: matches_lang lang_timeRegex)
  have g: "hourGroup (trim t) = [b]" "minuteGroup (trim t) = [c, d]"
    using assms digit_not_colon by (auto simp: hourGroup_def minuteGroup_def)
  have h: "toNumber [b] = int (b - 48)" "b - 48 \<le> 23"
    and mi: "toNumber [c, d] = int (10 * (c - 48) + (d - 48))"
    using assms by (auto simp: toNumber_one toNumber_two isDigit_def)
  show ?thesis
    unfolding normalizeTime_def Let_def g
    using m pad_one_digit[OF assms(1)] pad_two_digits[OF assms(2,3)] h(2)
    by (simp add: h(1) mi del: of_nat_add of_nat_mult)
qed

lemma normalizeTime_format:
  "normalizeTime t = Inl InvalidTimeFormat \<longleftrightarrow> \<not> matches timeRegex (trim t)"
  by (auto simp: normalizeTime_def Let_def)

lemma normalizeTime_accepts:
  "normalizeTime t = Inr r \<longleftrightarrow>
     (\<exists>a b c d. isDigit a \<and> isDigit b \<and> isDigit c \<and> isDigit d \<and>
        (trim t = [a, b, colon, c, d] \<or> a = 48 \<and> trim t = [b, colon, c, d]) \<and>
        10 * (a - 48) + (b - 48) \<le> 23 \<and> 10 * (c - 48) + (d - 48) \<le> 59 \<and>
        r = [a, b, colon, c, d])"
  (is "?L \<longleftrightarrow> ?R")
proof
  assume L: ?L
  then have "matches timeRegex (trim t)"
    by (auto simp: normalizeTime_def Let_def split: if_splits)
  then obtain a b c d where dg: "isDigit a" "isDigit b" "isDigit c" "isDigit d"
    and sh: "trim t = [a, b, colon, c, d] \<or> trim t = [b, colon, c, d]"
    by (auto simp: matches_lang lang_timeRegex)
  from sh show ?R
  proof
    assume two: "trim t = [a, b, colon, c, d]"
    from L normalizeTime_two[OF dg two]
    have "10 * (a - 48) + (b - 48) \<le> 23 \<and> 10 * (c - 48) + (d - 48) \<le> 59 \<and> r = [a, b, colon, c, d]"
      by (auto split: if_splits)
    with dg two show ?R by blast
  next
    assume one: "trim t = [b, colon, c, d]"
    have z: "isDigit 48" by (simp add: isDigit_def)
    from dg(2) have "b - 48 \<le> 23" by (auto simp: isDigit_def)
    moreover from L normalizeTime_one[OF dg(2,3,4) one]
    have "10 * (c - 48) + (d - 48) \<le> 59 \<and> r = [48, b, colon, c, d]"
      by (auto split: if_splits)
    ultimately show ?R using z dg one by (intro exI[of _ 48] exI[of _ b] exI[of _ c] exI[of _ d]) simp
  qed
next
  assume ?R
  then obtain a b c d where dg: "isDigit a" "isDigit b" "isDigit c" "isDigit d"
    and sh: "trim t = [a, b, colon, c, d] \<or> a = 48 \<and> trim t = [b, colon, c, d]"
    and rg: "10 * (a - 48) + (b - 48) \<le> 23" "10 * (c - 48) + (d - 48) \<le> 59"
    and r: "r = [a, b, colon, c, d]" by blast
  from sh show ?L
  proof
    assume "trim t = [a, b, colon, c, d]"
    from normalizeTime_two[OF dg this] rg r show ?L by simp
  next
    assume "a = 48 \<and> trim t = [b, colon, c, d]"
    then have a: "a = 48" and one: "trim t = [b, colon, c, d]" by simp_all
    from normalizeTime_one[OF dg(2,3,4) one] rg r a show ?L by simp
  qed
qed

lemma normalizeTime_errors:
  "normalizeTime t = Inl e \<Longrightarrow> e = InvalidTimeFormat \<or> e = InvalidTimeRange"
  by (auto simp: normalizeTime_def Let_def split: if_splits)

text \<open>
  C5. \<open>normalizeTime("9:5")\<close> fails on the format (the minute needs two digits),
  \<open>normalizeTime("09:05")\<close> returns \<open>"09:05"\<close>, \<open>normalizeTime("24:00")\<close> fails on the
  range of the hour. In general \<open>normalizeTime\<close> accepts exactly the inputs that, once
  trimmed, read \<open>H:mm\<close> or \<open>HH:mm\<close> in decimal digits with an hour of at most 23 and a
  minute of at most 59, and it returns the four digits \<open>HH:mm\<close>, the hour filled up with
  a zero.
\<close>

theorem normalizeTime_spec:
  "normalizeTime (str ''9:5'') = Inl InvalidTimeFormat \<and>
   normalizeTime (str ''09:05'') = Inr (str ''09:05'') \<and>
   normalizeTime (str ''24:00'') = Inl InvalidTimeRange \<and>
   (\<forall>t r. normalizeTime t = Inr r \<longleftrightarrow>
      (\<exists>a b c d. isDigit a \<and> isDigit b \<and> isDigit c \<and> isDigit d \<and>
         (trim t = [a, b, colon, c, d] \<or> a = 48 \<and> trim t = [b, colon, c, d]) \<and>
         10 * (a - 48) + (b - 48) \<le> 23 \<and> 10 * (c - 48) + (d - 48) \<le> 59 \<and>
         r = [a, b, colon, c, d]))"
proof (intro conjI allI)
  show "normalizeTime (str ''9:5'') = Inl InvalidTimeFormat" by (simp add: js_defs time_defs)
  show "normalizeTime (str ''09:05'') = Inr (str ''09:05'')" by (simp add: js_defs time_defs)
  show "normalizeTime (str ''24:00'') = Inl InvalidTimeRange" by (simp add: js_defs time_defs)
  fix t r
  show "normalizeTime t = Inr r \<longleftrightarrow>
      (\<exists>a b c d. isDigit a \<and> isDigit b \<and> isDigit c \<and> isDigit d \<and>
         (trim t = [a, b, colon, c, d] \<or> a = 48 \<and> trim t = [b, colon, c, d]) \<and>
         10 * (a - 48) + (b - 48) \<le> 23 \<and> 10 * (c - 48) + (d - 48) \<le> 59 \<and>
         r = [a, b, colon, c, d])"
    by (rule normalizeTime_accepts)
qed

theorem normalizeTime_spec_witness:
  "normalizeTime (str '' 7:30 '') = Inr (str ''07:30'') \<and>
   normalizeTime (str ''23:59'') = Inr (str ''23:59'') \<and>
   normalizeTime (str ''7:60'') = Inl InvalidTimeRange \<and>
   normalizeTime (str ''007:30'') = Inl InvalidTimeFormat"
  using normalizeTime_spec by (simp add: js_defs time_defs)

section \<open>Properties of the email pattern\<close>

lemma addrChar_iff: "list_all addrChar w \<longleftrightarrow> atSign \<notin> set w \<and> list_all (\<lambda>c. \<not> isSpace c) w"
  by (induction w) (auto simp: addrChar_def)

lemma takeWhile_until: "a \<notin> set l \<Longrightarrow> takeWhile (\<lambda>c. c \<noteq> a) (l @ a # r) = l"
  by (induction l) auto

lemma dropWhile_until: "a \<notin> set l \<Longrightarrow> dropWhile (\<lambda>c. c \<noteq> a) (l @ a # r) = a # r"
  by (induction l) auto

lemma emailValid_imp_form:
  assumes "emailValid s"
  shows "emailForm s"
proof -
  from assms obtain l d t where s: "s = l @ [atSign] @ d @ [dot] @ t"
    and ne: "l \<noteq> []" "d \<noteq> []" "t \<noteq> []"
    and ac: "list_all addrChar l" "list_all addrChar d" "list_all addrChar t"
    unfolding emailValid_def matches_lang lang_emailRegex by blast
  have na: "atSign \<notin> set l" "atSign \<notin> set d" "atSign \<notin> set t"
    and ns: "list_all (\<lambda>c. \<not> isSpace c) l" "list_all (\<lambda>c. \<not> isSpace c) d"
      "list_all (\<lambda>c. \<not> isSpace c) t"
    using ac by (simp_all add: addrChar_iff)
  have da: "dot \<noteq> atSign" "\<not> isSpace dot" "\<not> isSpace atSign"
    by (simp_all add: dot_def atSign_def isSpace_def)
  have lp: "localPart s = l"
    unfolding localPart_def s using na(1) by (simp add: takeWhile_until)
  have "dropWhile (\<lambda>c. c \<noteq> atSign) s = [atSign] @ d @ [dot] @ t"
    unfolding s using na(1) by (simp add: dropWhile_until)
  then have dp: "domainPart s = d @ [dot] @ t"
    by (simp add: domainPart_def)
  obtain x d' where d: "d = x # d'" using ne(2) by (cases d) auto
  have "butlast (drop 1 (d @ [dot] @ t)) = d' @ [dot] @ butlast t"
    using ne(3) by (simp add: d butlast_append)
  then have "innerDot (domainPart s)" by (simp add: innerDot_def dp)
  moreover have "atSign \<notin> set (domainPart s)" using na da by (simp add: dp)
  moreover have "list_all (\<lambda>c. \<not> isSpace c) s" using ns da by (simp add: s)
  moreover have "atSign \<in> set s" by (simp add: s)
  ultimately show ?thesis using lp ne(1) by (simp add: emailForm_def)
qed

lemma emailForm_imp_valid:
  assumes "emailForm s"
  shows "emailValid s"
proof -
  let ?l = "localPart s" and ?m = "domainPart s"
  from assms have at: "atSign \<in> set s" and l: "?l \<noteq> []" and idot: "innerDot ?m"
    and na: "atSign \<notin> set ?m" and ns: "list_all (\<lambda>c. \<not> isSpace c) s"
    by (simp_all add: emailForm_def)
  from at have "dropWhile (\<lambda>c. c \<noteq> atSign) s \<noteq> []" by auto
  moreover have "dropWhile (\<lambda>c. c \<noteq> atSign) s \<noteq> [] \<Longrightarrow> hd (dropWhile (\<lambda>c. c \<noteq> atSign) s) = atSign"
    using hd_dropWhile[of "\<lambda>c. c \<noteq> atSign" s] by auto
  ultimately have dw: "dropWhile (\<lambda>c. c \<noteq> atSign) s = atSign # ?m"
    by (cases "dropWhile (\<lambda>c. c \<noteq> atSign) s") (auto simp: domainPart_def)
  have s: "s = ?l @ [atSign] @ ?m"
    using takeWhile_dropWhile_id[of "\<lambda>c. c \<noteq> atSign" s] dw by (simp add: localPart_def)
  from idot have "dot \<in> set (butlast (drop 1 ?m))" by (simp add: innerDot_def)
  then obtain m1 m2 where mid: "butlast (drop 1 ?m) = m1 @ [dot] @ m2"
    by (auto simp: in_set_conv_decomp)
  then have ne1: "drop 1 ?m \<noteq> []" by auto
  then obtain x rest where m: "?m = x # rest" and rest: "rest \<noteq> []" by (cases ?m) auto
  from rest mid m have r: "rest = m1 @ [dot] @ m2 @ [last rest]"
    using append_butlast_last_id[of rest] by simp
  define d where "d = x # m1"
  define t where "t = m2 @ [last rest]"
  have md: "?m = d @ [dot] @ t" using m r by (simp add: d_def t_def)
  have sall: "list_all (\<lambda>c. \<not> isSpace c) ?l" "list_all (\<lambda>c. \<not> isSpace c) ?m"
    using ns s by (metis list_all_append)+
  have "atSign \<notin> set ?l" unfolding localPart_def by (auto dest: set_takeWhileD)
  with sall(1) have al: "list_all addrChar ?l" by (simp add: addrChar_iff)
  from na sall(2) have "list_all addrChar ?m" by (simp add: addrChar_iff)
  then have ad: "list_all addrChar d" "list_all addrChar t" by (simp_all add: md)
  have "s = ?l @ [atSign] @ d @ [dot] @ t" using s md by simp
  moreover have "d \<noteq> []" "t \<noteq> []" by (simp_all add: d_def t_def)
  ultimately show ?thesis
    unfolding emailValid_def matches_lang lang_emailRegex using l al ad by blast
qed

text \<open>
  C7, as it is stated: the validation accepts exactly the strings local-part@domain
  whose domain holds at least one dot and whose parts hold no white space and no
  further \<open>@\<close>. The address \<open>a@b.\<close> has that shape and is refused: the pattern wants
  at least one character on either side of the dot.
\<close>

theorem emailValid_counterexample:
  "specEmailForm (str ''a@b.'') \<and> \<not> emailValid (str ''a@b.'')"
  by (simp add: js_defs email_defs)

text \<open>
  C7, amended. The validation accepts exactly the strings that hold no white space and
  one \<open>@\<close>, with a local part that is not empty before it and, after it, a domain
  that holds a dot which is neither its first nor its last character. In particular
  \<open>a@b\<close> is refused and \<open>a@b.com\<close> is accepted.
\<close>

theorem emailValid_form:
  "(\<forall>s. emailValid s \<longleftrightarrow> emailForm s) \<and>
   \<not> emailValid (str ''a@b'') \<and> emailValid (str ''a@b.com'')"
proof (intro conjI allI)
  fix s show "emailValid s \<longleftrightarrow> emailForm s"
    using emailValid_imp_form emailForm_imp_valid by blast
  show "\<not> emailValid (str ''a@b'')" by (simp add: js_defs email_defs)
  show "emailValid (str ''a@b.com'')" by (simp add: js_defs email_defs)
qed

theorem emailValid_form_witness:
  "emailValid (str ''ann.lee@mail.example.org'') \<and> emailForm (str ''ann.lee@mail.example.org'') \<and>
   \<not> emailValid (str ''a@.b'') \<and> \<not> emailForm (str ''a@.b'')"
  using emailValid_form by (simp add: js_defs email_defs)

section \<open>Properties of the pre-save hooks\<close>

lemma saveBooking_cases:
  "saveBooking db doc =
     (if \<not> emailValid (email doc) then (Some InvalidEmail, db)
      else if eventId doc \<notin> events db then (Some EventMissing, db)
      else (None, db\<lparr>bookings := bookings db @ [doc]\<rparr>))"
  by (simp add: saveBooking_def bookingPreSave_def)

text \<open>
  C6. Saving a Booking whose \<open>eventId\<close> names no Event of the collection fails: the
  pre-save hook answers with the error of the missing event and the database is left
  as it was. Saving a Booking whose \<open>eventId\<close> names an Event of the collection and
  whose email is valid succeeds, and the Booking is stored.
\<close>

theorem saveBooking_reference:
  "(eventId doc \<notin> events db \<longrightarrow>
      bookingPreSave (events db) doc = Some EventMissing \<and>
      fst (saveBooking db doc) \<noteq> None \<and> snd (saveBooking db doc) = db) \<and>
   (eventId doc \<in> events db \<and> emailValid (email doc) \<longrightarrow>
      bookingPreSave (events db) doc = None \<and>
      saveBooking db doc = (None, db\<lparr>bookings := bookings db @ [doc]\<rparr>))"
  by (simp add: saveBooking_cases bookingPreSave_def)

theorem saveBooking_reference_witness:
  "saveBooking sampleDatabase \<lparr>eventId = 3, email = str ''a@b.com''\<rparr> =
     (Some EventMissing, sampleDatabase) \<and>
   saveBooking sampleDatabase \<lparr>eventId = 2, email = str ''a@b.com''\<rparr> =
     (None, \<lparr>events = {1, 2}, bookings = [\<lparr>eventId = 2, email = str ''a@b.com''\<rparr>]\<rparr>)"
  using saveBooking_reference [of "\<lparr>eventId = 3, email = str ''a@b.com''\<rparr>" sampleDatabase]
    saveBooking_reference [of "\<lparr>eventId = 2, email = str ''a@b.com''\<rparr>" sampleDatabase]
  by (simp add: sampleDatabase_def saveBooking_cases js_defs email_defs)

lemma firstBlank_Some:
  "firstBlank doc fs = Some g \<Longrightarrow> g \<in> set fs \<and> isBlank (fieldValue doc g)"
  by (induction fs) (auto split: if_splits)

lemma firstBlank_None:
  "firstBlank doc fs = None \<longleftrightarrow> (\<forall>f \<in> set fs. \<not> isBlank (fieldValue doc f))"
  by (induction fs) auto

lemma all_required: "f \<in> set requiredFields"
  by (cases f) (simp_all add: requiredFields_def)

lemma firstBlank_required_None:
  "firstBlank doc requiredFields = None \<longleftrightarrow> (\<forall>f. \<not> isBlank (fieldValue doc f))"
  by (auto simp: firstBlank_None all_required)

text \<open>
  C9. If a required string field of an Event is absent, or empty once trimmed, the
  pre-save hook rejects the save with the error that names such a field (the first one in
  the order of the hook's list), and it leaves the document as it was: slug, date and
  time are not normalized.
\<close>

theorem eventPreSave_required:
  assumes "isBlank (fieldValue doc f)"
  shows "\<exists>g. isBlank (fieldValue doc g) \<and>
             eventPreSave parse doc = (Some (FieldRequired g), doc) \<and>
             message (FieldRequired g) =
               str ''Field '' @ [34] @ fieldName g @ [34] @ str '' is required and cannot be empty.''"
proof -
  from assms have "firstBlank doc requiredFields \<noteq> None"
    by (auto simp: firstBlank_required_None)
  then obtain g where g: "firstBlank doc requiredFields = Some g" by auto
  then have "isBlank (fieldValue doc g)" using firstBlank_Some by blast
  moreover from g have "eventPreSave parse doc = (Some (FieldRequired g), doc)"
    by (simp add: eventPreSave_def)
  ultimately show ?thesis by auto
qed

theorem eventPreSave_required_witness:
  "eventPreSave (nodeDateParse 0 (\<lambda>s. None))
     (sampleEvent\<lparr>fieldValue := (fieldValue sampleEvent)(F_venue := None)\<rparr>) =
   (Some (FieldRequired F_venue),
    sampleEvent\<lparr>fieldValue := (fieldValue sampleEvent)(F_venue := None)\<rparr>) \<and>
   eventPreSave (nodeDateParse 0 (\<lambda>s. None))
     (sampleEvent\<lparr>fieldValue := (fieldValue sampleEvent)(F_time := Some (str '' ''))\<rparr>) =
   (Some (FieldRequired F_time),
    sampleEvent\<lparr>fieldValue := (fieldValue sampleEvent)(F_time := Some (str '' ''))\<rparr>)"
  using eventPreSave_required
    [of "sampleEvent\<lparr>fieldValue := (fieldValue sampleEvent)(F_venue := None)\<rparr>" F_venue "nodeDateParse 0 (\<lambda>s. None)"]
  by (simp add: js_defs event_defs)

lemma slug_setField: "slug (setField doc f v) = slug doc"
  by (simp add: setField_def)

lemma updateDate_slug: "updateDate parse d = Inr d' \<Longrightarrow> slug d' = slug d"
  by (auto simp: updateDate_def slug_setField split: if_splits option.splits sum.splits)

lemma updateTime_slug: "updateTime d = Inr d' \<Longrightarrow> slug d' = slug d"
  by (auto simp: updateTime_def slug_setField split: if_splits option.splits sum.splits)

lemma eventPreSave_slug_after:
  assumes "firstBlank doc requiredFields = None" and "updateSlug doc = Inr doc1"
  shows "slug (snd (eventPreSave parse doc)) = slug doc1"
  using assms
  by (auto simp: eventPreSave_def updateDate_slug updateTime_slug split: sum.splits)

lemma title_present:
  "\<not> isBlank (fieldValue doc F_title) \<Longrightarrow> \<exists>t. fieldValue doc F_title = Some t"
  by (cases "fieldValue doc F_title") (auto simp: isBlank_def)

text \<open>
  C8, amended. When the title is not modified and a slug is present, the hook leaves the
  slug as it is. When the title is modified or the slug is absent (or empty), and every
  required string field is non-empty once trimmed, the hook sets the slug to
  \<open>createSlug(title)\<close>.
\<close>

theorem eventPreSave_slug:
  "(\<not> slugFalsy (slug doc) \<and> F_title \<notin> modifiedPaths doc \<longrightarrow>
      slug (snd (eventPreSave parse doc)) = slug doc) \<and>
   ((\<forall>f. \<not> isBlank (fieldValue doc f)) \<and>
    (slugFalsy (slug doc) \<or> F_title \<in> modifiedPaths doc) \<longrightarrow>
      (\<exists>t. fieldValue doc F_title = Some t \<and>
           slug (snd (eventPreSave parse doc)) = Some (createSlug t)))"
proof (intro conjI impI)
  assume a: "\<not> slugFalsy (slug doc) \<and> F_title \<notin> modifiedPaths doc"
  then have u: "updateSlug doc = Inr doc" by (simp add: updateSlug_def)
  show "slug (snd (eventPreSave parse doc)) = slug doc"
  proof (cases "firstBlank doc requiredFields")
    case None
    from eventPreSave_slug_after[OF None u] show ?thesis .
  next
    case (Some g)
    then show ?thesis by (simp add: eventPreSave_def)
  qed
next
  assume a: "(\<forall>f. \<not> isBlank (fieldValue doc f)) \<and>
    (slugFalsy (slug doc) \<or> F_title \<in> modifiedPaths doc)"
  then have n: "firstBlank doc requiredFields = None"
    by (simp add: firstBlank_required_None)
  from a obtain t where t: "fieldValue doc F_title = Some t"
    using title_present by blast
  with a have "updateSlug doc = Inr (doc\<lparr>slug := Some (createSlug t)\<rparr>)"
    by (auto simp: updateSlug_def)
  from eventPreSave_slug_after[OF n this] t
  show "\<exists>t. fieldValue doc F_title = Some t \<and>
           slug (snd (eventPreSave parse doc)) = Some (createSlug t)"
    by simp
qed

text \<open>
  C8, as it is stated: whenever the title is modified or the slug is absent, the slug is
  regenerated. A new Event with a modified title, no slug and a description of blanks
  only is rejected by the check of the required fields, which runs first: its slug is
  not set.
\<close>

theorem eventPreSave_slug_counterexample:
  "F_title \<in> modifiedPaths (sampleEvent\<lparr>fieldValue := (fieldValue sampleEvent)(F_description := Some (str ''  ''))\<rparr>) \<and>
   slug (sampleEvent\<lparr>fieldValue := (fieldValue sampleEvent)(F_description := Some (str ''  ''))\<rparr>) = None \<and>
   fieldValue (sampleEvent\<lparr>fieldValue := (fieldValue sampleEvent)(F_description := Some (str ''  ''))\<rparr>) F_title =
     Some (str ''React Summit 2025'') \<and>
   eventPreSave (nodeDateParse 0 (\<lambda>s. None))
       (sampleEvent\<lparr>fieldValue := (fieldValue sampleEvent)(F_description := Some (str ''  ''))\<rparr>) =
     (Some (FieldRequired F_description),
      sampleEvent\<lparr>fieldValue := (fieldValue sampleEvent)(F_description := Some (str ''  ''))\<rparr>) \<and>
   slug (snd (eventPreSave (nodeDateParse 0 (\<lambda>s. None))
       (sampleEvent\<lparr>fieldValue := (fieldValue sampleEvent)(F_description := Some (str ''  ''))\<rparr>))) \<noteq>
     Some (createSlug (str ''React Summit 2025''))"
  by (simp add: js_defs event_defs)

theorem eventPreSave_slug_witness:
  "slug (snd (eventPreSave (nodeDateParse 0 (\<lambda>s. None)) sampleEvent)) = Some (str ''react-summit-2025'') \<and>
   slug (snd (eventPreSave (nodeDateParse 0 (\<lambda>s. None))
     (sampleEvent\<lparr>slug := Some (str ''kept''), modifiedPaths := {}\<rparr>))) = Some (str ''kept'')"
  using eventPreSave_slug [of sampleEvent "nodeDateParse 0 (\<lambda>s. None)"]
    eventPreSave_slug [of "sampleEvent\<lparr>slug := Some (str ''kept''), modifiedPaths := {}\<rparr>" "nodeDateParse 0 (\<lambda>s. None)"]
  by (simp add: js_defs event_defs slug_defs)

lemma sampleEvent_saved:
  "eventPreSave (nodeDateParse 0 (\<lambda>s. None)) sampleEvent =
     (None,
      \<lparr>fieldValue = (\<lambda>f. Some (str ''text''))
         (F_title := Some (str ''React Summit 2025''),
          F_date := Some (str ''2025-06-13''),
          F_time := Some (str ''09:30'')),
       slug = Some (str ''react-summit-2025''),
       modifiedPaths = {F_title, F_date, F_time}\<rparr>)"
  by (simp add: js_defs event_defs slug_defs date_defs time_defs fun_upd_twist)

section \<open>Titles with an empty slug\<close>

lemma toLowerCase_plain:
  "list_all (\<lambda>c. \<not> asciiAlnum c \<and> c \<noteq> 304 \<and> c \<noteq> 8490) s \<Longrightarrow> toLowerCase s = s"
  by (induction s) (auto simp: toLowerCase_def asciiAlnum_def)

lemma only_dashes:
  "set w \<subseteq> {dash} \<Longrightarrow> \<not> adjDash w \<Longrightarrow> w = [] \<or> w = [dash]"
proof (cases w)
  case (Cons a v)
  assume "set w \<subseteq> {dash}" "\<not> adjDash w"
  with Cons show ?thesis by (cases v) auto
qed simp

lemma trimDashes_only_dashes: "w = [] \<or> w = [dash] \<Longrightarrow> trimDashes w = []"
  by (auto simp: trimDashes_def)

lemma slugify_no_alnum:
  assumes "list_all (\<lambda>c. \<not> isLowerAZ c \<and> \<not> isDigit c) s"
  shows "slugify s = []"
proof -
  let ?k = "keepSlugChars (trim s)"
  let ?w = "replaceRuns (\<lambda>c. c = dash) (replaceRuns isSpace ?k)"
  have "set (trim s) \<subseteq> set s"
    unfolding trim_def by (auto dest!: set_dropWhileD)
  with assms have "\<forall>c \<in> set ?k. isSpace c \<or> c = dash"
    by (auto simp: keepSlugChars_def list_all_iff)
  then have "set (replaceRuns isSpace ?k) \<subseteq> {dash}"
    using set_replaceRuns[of isSpace ?k] by auto
  then have "set ?w \<subseteq> {dash}"
    using set_replaceRuns[of "\<lambda>c. c = dash" "replaceRuns isSpace ?k"] by auto
  then have "?w = [] \<or> ?w = [dash]"
    using no_adjDash_replaceRuns by (rule only_dashes)
  then show ?thesis unfolding slugify_def by (rule trimDashes_only_dashes)
qed

lemma createSlug_no_alnum:
  assumes "list_all (\<lambda>c. \<not> asciiAlnum c \<and> c \<noteq> 304 \<and> c \<noteq> 8490) title"
  shows "createSlug title = []"
proof -
  from assms have "list_all (\<lambda>c. \<not> isLowerAZ c \<and> \<not> isDigit c) title"
    by (auto simp: list_all_iff asciiAlnum_def)
  then show ?thesis
    unfolding createSlug_def toLowerCase_plain[OF assms] by (rule slugify_no_alnum)
qed

lemma eventPreSave_empty_slug:
  assumes nb: "\<forall>f. \<not> isBlank (fieldValue doc f)"
    and t: "fieldValue doc F_title = Some t" "createSlug t = []"
    and re: "slugFalsy (slug doc) \<or> F_title \<in> modifiedPaths doc"
    and nm: "F_date \<notin> modifiedPaths doc" "F_time \<notin> modifiedPaths doc"
  shows "eventPreSave parse doc = (None, doc\<lparr>slug := Some []\<rparr>)"
proof -
  from nb have "firstBlank doc requiredFields = None" by (simp add: firstBlank_required_None)
  moreover from t re have "updateSlug doc = Inr (doc\<lparr>slug := Some []\<rparr>)"
    by (auto simp: updateSlug_def)
  moreover from nm have "updateDate parse (doc\<lparr>slug := Some []\<rparr>) = Inr (doc\<lparr>slug := Some []\<rparr>)"
    "updateTime (doc\<lparr>slug := Some []\<rparr>) = Inr (doc\<lparr>slug := Some []\<rparr>)"
    by (simp_all add: updateDate_def updateTime_def)
  ultimately show ?thesis by (simp add: eventPreSave_def)
qed

text \<open>
  C10, as it is stated: every title without an ASCII letter or digit has the empty
  slug. The title that is the one character U+212A, the Kelvin sign, holds no ASCII
  letter or digit; \<open>toLowerCase\<close> turns it into \<open>k\<close>, and that is its slug.
\<close>

theorem createSlug_empty_counterexample:
  "list_all (\<lambda>c. \<not> asciiAlnum c) [8490] \<and> createSlug [8490] = str ''k''"
  by (simp add: js_defs slug_defs asciiAlnum_def)

text \<open>
  C10, amended. Every title none of whose characters is an ASCII letter or digit,
  U+0130 or U+212A has the empty slug; \<open>"!!!"\<close> is one. The pre-save hook does not
  reject an empty slug: on a document whose required fields are all non-empty once
  trimmed, whose title has the empty slug and is modified (or whose slug is absent), and
  whose date and time are not modified, it reports no error and stores the empty slug.
\<close>

theorem createSlug_empty:
  "(\<forall>title. list_all (\<lambda>c. \<not> asciiAlnum c \<and> c \<noteq> 304 \<and> c \<noteq> 8490) title \<longrightarrow>
      createSlug title = []) \<and>
   createSlug (str ''!!!'') = [] \<and>
   (\<forall>parse doc t.
      (\<forall>f. \<not> isBlank (fieldValue doc f)) \<and>
      fieldValue doc F_title = Some t \<and> createSlug t = [] \<and>
      (slugFalsy (slug doc) \<or> F_title \<in> modifiedPaths doc) \<and>
      F_date \<notin> modifiedPaths doc \<and> F_time \<notin> modifiedPaths doc \<longrightarrow>
      eventPreSave parse doc = (None, doc\<lparr>slug := Some []\<rparr>))"
proof (intro conjI allI impI)
  fix title
  assume "list_all (\<lambda>c. \<not> asciiAlnum c \<and> c \<noteq> 304 \<and> c \<noteq> 8490) title"
  then show "createSlug title = []" by (rule createSlug_no_alnum)
next
  show "createSlug (str ''!!!'') = []" by (simp add: js_defs slug_defs)
next
  fix parse and doc :: eventDoc and t
  assume "(\<forall>f. \<not> isBlank (fieldValue doc f)) \<and>
      fieldValue doc F_title = Some t \<and> createSlug t = [] \<and>
      (slugFalsy (slug doc) \<or> F_title \<in> modifiedPaths doc) \<and>
      F_date \<notin> modifiedPaths doc \<and> F_time \<notin> modifiedPaths doc"
  then show "eventPreSave parse doc = (None, doc\<lparr>slug := Some []\<rparr>)"
    using eventPreSave_empty_slug by blast
qed

theorem createSlug_empty_witness:
  "createSlug (str ''?! -- (#) ...'') = [] \<and>
   eventPreSave (nodeDateParse 0 (\<lambda>s. None))
     (sampleEvent\<lparr>fieldValue := (fieldValue sampleEvent)(F_title := Some (str ''!!!'')),
        modifiedPaths := {F_title}\<rparr>) =
   (None,
    sampleEvent\<lparr>fieldValue := (fieldValue sampleEvent)(F_title := Some (str ''!!!'')),
       modifiedPaths := {F_title}, slug := Some []\<rparr>)"
  using createSlug_empty by (simp add: js_defs slug_defs event_defs)

section \<open>Properties of the event-details page\<close>

lemmas page_defs = EventDetailsPage_def pageBody_def ok_def eventSection_def

lemma not_ok_404: "status r = 404 \<Longrightarrow> \<not> ok r"
  by (simp add: ok_def)

text \<open>
  C3, as it is stated: every non-OK status ends in the not-found response. On the status
  500 the page logs the failure and renders its own section, "Event unavailable".
\<close>

theorem EventDetailsPage_not_ok_counterexample:
  "\<not> ok \<lparr>status = 500, statusText = str ''Internal Server Error'', body = None\<rparr> \<and>
   EventDetailsPage
     (Some \<lparr>status = 500, statusText = str ''Internal Server Error'', body = None\<rparr>) (Some []) =
   ([FailedToFetch 500 (str ''Internal Server Error'')], Rendered EventUnavailable)"
  by (simp add: page_defs)

text \<open>
  C3, amended. When the fetch of the event-details page returns the status 404, the
  result is the not-found response. On every other non-OK status the page logs the
  status and its text and renders the section "Event unavailable"; it is no not-found
  response.
\<close>

theorem EventDetailsPage_not_ok:
  "(status r = 404 \<longrightarrow> snd (EventDetailsPage (Some r) similar) = NotFound) \<and>
   (\<not> ok r \<and> status r \<noteq> 404 \<longrightarrow>
      EventDetailsPage (Some r) similar =
        ([FailedToFetch (status r) (statusText r)], Rendered EventUnavailable))"
  by (simp add: page_defs)

theorem EventDetailsPage_not_ok_witness:
  "snd (EventDetailsPage (Some \<lparr>status = 404, statusText = str ''Not Found'', body = None\<rparr>) None) =
     NotFound \<and>
   EventDetailsPage (Some \<lparr>status = 503, statusText = str ''Service Unavailable'', body = None\<rparr>) None =
     ([FailedToFetch 503 (str ''Service Unavailable'')], Rendered EventUnavailable)"
  using EventDetailsPage_not_ok
      [of "\<lparr>status = 404, statusText = str ''Not Found'', body = None\<rparr>" None]
    EventDetailsPage_not_ok
      [of "\<lparr>status = 503, statusText = str ''Service Unavailable'', body = None\<rparr>" None]
  by (simp add: page_defs)

lemma EventDetailsPage_renders:
  "EventDetailsPage
     (Some \<lparr>status = 200, statusText = str ''OK'',
        body = Some (JObj [(str ''event'', JObj [(str ''description'', JStr (str ''A talk''))])])\<rparr>)
     (Some []) =
   ([], Rendered (EventSection
      (eventSection (Some (JObj [(str ''description'', JStr (str ''A talk''))])) [])))"
  by (simp add: EventDetailsPage_def pageBody_def ok_def str_def)

section \<open>Properties of the connection cache\<close>

lemma cacheInv_initial: "cacheInv initialCache"
  by (simp add: cacheInv_def initialCache_def)

lemma cacheInv_startCall:
  assumes "cacheInv s"
  shows "cacheInv (startCall s)"
proof (cases "conn s")
  case (Some h)
  with assms show ?thesis by (auto simp: cacheInv_def startCall_def)
next
  case None
  show ?thesis
  proof (cases "promise s")
    case no: None
    with assms have "promises s = []" "callers s = []" by (auto simp: cacheInv_def)
    with None no show ?thesis by (simp add: cacheInv_def startCall_def)
  next
    case (Some p)
    with assms None show ?thesis by (auto simp: cacheInv_def startCall_def)
  qed
qed

lemma cacheInv_settle:
  assumes "cacheInv s"
  shows "cacheInv (settle p r s)"
proof (cases "p < length (promises s) \<and> promises s ! p = Pending")
  case False
  with assms show ?thesis by (auto simp: settle_def)
next
  case True
  with assms have p: "p = 0" and ps: "promises s = [Pending]"
    by (cases "promises s"; auto simp: cacheInv_def)+
  have st: "settle p r s = s\<lparr>promises := [r]\<rparr>"
    using True by (simp add: settle_def p ps)
  from assms ps have "conn s = None" by (cases "conn s") (auto simp: cacheInv_def)
  moreover from assms ps have "\<forall>c \<in> set (callers s). c = Awaiting 0"
  proof (intro ballI)
    fix c assume c: "c \<in> set (callers s)"
    with assms ps show "c = Awaiting 0" by (cases c) (auto simp: cacheInv_def)
  qed
  moreover from assms ps have "promise s = Some 0"
    by (cases "promise s") (auto simp: cacheInv_def)
  ultimately show ?thesis unfolding st by (auto simp: cacheInv_def)
qed

lemma cacheInv_resume:
  assumes "cacheInv s"
  shows "cacheInv (resume k s)"
proof (cases "k < length (callers s)")
  case False
  with assms show ?thesis by (simp add: resume_def)
next
  case k: True
  show ?thesis
  proof (cases "callers s ! k")
    case (Awaiting p)
    show ?thesis
    proof (cases "p < length (promises s)")
      case False
      with k Awaiting assms show ?thesis by (simp add: resume_def)
    next
      case True
      with assms have p: "p = 0" and one: "promises s = [promises s ! 0]"
        by (cases "promises s"; auto simp: cacheInv_def)+
      from assms one have pr: "promise s \<noteq> None" by (auto simp: cacheInv_def)
      show ?thesis
      proof (cases "promises s ! 0")
        case Pending
        with k Awaiting True p assms show ?thesis by (simp add: resume_def)
      next
        case (Fulfilled h)
        then have r: "resume k s = s\<lparr>conn := Some h, callers := (callers s)[k := Returned h]\<rparr>"
          using k Awaiting True p by (simp add: resume_def)
        have "set ((callers s)[k := Returned h]) \<subseteq> insert (Returned h) (set (callers s))"
          by (rule set_update_subset_insert)
        with assms one Fulfilled pr show ?thesis
          unfolding r by (auto simp: cacheInv_def)
      next
        case Rejected
        then have r: "resume k s = s\<lparr>callers := (callers s)[k := Threw]\<rparr>"
          using k Awaiting True p by (simp add: resume_def)
        have "set ((callers s)[k := Threw]) \<subseteq> insert Threw (set (callers s))"
          by (rule set_update_subset_insert)
        with assms one Rejected pr show ?thesis
          unfolding r by (auto simp: cacheInv_def)
      qed
    qed
  next
    case (Returned h)
    with k assms show ?thesis by (simp add: resume_def)
  next
    case Threw
    with k assms show ?thesis by (simp add: resume_def)
  qed
qed

lemma cacheInv_step: "cacheInv s \<Longrightarrow> cacheInv (step s e)"
  by (cases e) (simp_all add: cacheInv_startCall cacheInv_settle cacheInv_resume)

lemma cacheInv_foldl: "cacheInv s \<Longrightarrow> cacheInv (foldl step s es)"
  by (induction es arbitrary: s) (simp_all add: cacheInv_step)

lemma cacheInv_run: "cacheInv (run es)"
  unfolding run_def by (rule cacheInv_foldl[OF cacheInv_initial])

lemma run_snoc: "run (es @ [e]) = step (run es) e"
  by (simp add: run_def)

lemmas cache_defs = run_def initialCache_def startCall_def settle_def resume_def

text \<open>
  C4. However the calls of \<open>connectToDatabase\<close>, the settling of the connection and
  the resumptions of the waiting calls interleave, starting from the empty cache: there
  is never more than one connection attempt, and exactly one as soon as a call has been
  made; every waiting call waits for that one attempt; every handle a call has returned
  is the handle the attempt was fulfilled with, and a waiting call that resumes after the
  fulfilment caches and returns it; and once a handle is cached, a further call returns
  it at once and starts no attempt.
\<close>

theorem connectToDatabase_single_attempt:
  "length (promises (run es)) \<le> 1 \<and>
   (callers (run es) \<noteq> [] \<longrightarrow> length (promises (run es)) = 1) \<and>
   (\<forall>p. Awaiting p \<in> set (callers (run es)) \<longrightarrow> p = 0) \<and>
   (\<forall>h. Returned h \<in> set (callers (run es)) \<longrightarrow> promises (run es) = [Fulfilled h]) \<and>
   (\<forall>h k. promises (run es) = [Fulfilled h] \<and> k < length (callers (run es)) \<and>
          callers (run es) ! k = Awaiting 0 \<longrightarrow>
          run (es @ [Resume k]) =
            (run es)\<lparr>conn := Some h, callers := (callers (run es))[k := Returned h]\<rparr>) \<and>
   (\<forall>h. conn (run es) = Some h \<longrightarrow>
        run (es @ [Call]) = (run es)\<lparr>callers := callers (run es) @ [Returned h]\<rparr>)"
proof -
  have inv: "cacheInv (run es)" by (rule cacheInv_run)
  have a: "length (promises (run es)) \<le> 1" using inv by (simp add: cacheInv_def)
  have b: "callers (run es) \<noteq> [] \<longrightarrow> length (promises (run es)) = 1"
    using inv by (cases "promise (run es)") (auto simp: cacheInv_def)
  have c: "\<forall>p. Awaiting p \<in> set (callers (run es)) \<longrightarrow> p = 0"
    using inv by (simp add: cacheInv_def)
  have d: "\<forall>h. Returned h \<in> set (callers (run es)) \<longrightarrow> promises (run es) = [Fulfilled h]"
    using inv by (simp add: cacheInv_def)
  have e: "\<forall>h k. promises (run es) = [Fulfilled h] \<and> k < length (callers (run es)) \<and>
          callers (run es) ! k = Awaiting 0 \<longrightarrow>
          run (es @ [Resume k]) =
            (run es)\<lparr>conn := Some h, callers := (callers (run es))[k := Returned h]\<rparr>"
    by (simp add: run_snoc resume_def)
  have f: "\<forall>h. conn (run es) = Some h \<longrightarrow>
        run (es @ [Call]) = (run es)\<lparr>callers := callers (run es) @ [Returned h]\<rparr>"
    by (simp add: run_snoc startCall_def)
  from a b c d e f show ?thesis by blast
qed

theorem connectToDatabase_single_attempt_witness:
  "run [Call, Call] =
     \<lparr>conn = None, promise = Some 0, promises = [Pending], callers = [Awaiting 0, Awaiting 0]\<rparr> \<and>
   run [Call, Call, Settle 0 (Fulfilled 7), Resume 1, Resume 0, Call] =
     \<lparr>conn = Some 7, promise = Some 0, promises = [Fulfilled 7],
      callers = [Returned 7, Returned 7, Returned 7]\<rparr> \<and>
   run [Call, Settle 0 (Fulfilled 7), Call, Resume 0, Resume 1] =
     \<lparr>conn = Some 7, promise = Some 0, promises = [Fulfilled 7],
      callers = [Returned 7, Returned 7]\<rparr>"
  using connectToDatabase_single_attempt [of "[Call, Call, Settle 0 (Fulfilled 7), Resume 1, Resume 0]"]
  by (simp add: cache_defs)

section \<open>Properties of the date normalizer\<close>

lemma decimal_digits: "c \<in> set (decimal n) \<Longrightarrow> isDigit c"
proof (induction n arbitrary: c rule: decimal.induct)
  case (1 n)
  show ?case
  proof (cases "n < 10")
    case True
    with "1.prems" show ?thesis by (simp add: decimal.simps isDigit_def)
  next
    case False
    with "1.prems" have "c \<in> set (decimal (n div 10)) \<or> c = 48 + n mod 10"
      using decimal.simps[of n] by auto
    then show ?thesis
    proof
      assume "c \<in> set (decimal (n div 10))"
      with False "1.IH" show ?thesis by simp
    next
      assume "c = 48 + n mod 10"
      then show ?thesis by (simp add: isDigit_def)
    qed
  qed
qed

lemma pad_digits: "c \<in> set (pad n v) \<Longrightarrow> isDigit c"
  by (auto simp: pad_def padStart_def dest: decimal_digits) (simp add: isDigit_def)

lemma isoDate_chars: "c \<in> set (isoDate t) \<Longrightarrow> isDigit c \<or> c = dash \<or> c = 43"
  by (auto simp: isoDate_def yearString_def dash_def split: prod.splits if_splits dest: pad_digits)

lemma isoDate_no_T: "84 \<notin> set (isoDate t)"
  using isoDate_chars[of 84 t] by (auto simp: isDigit_def dash_def)

lemma splitOn_nonempty: "splitOn sep s \<noteq> []"
  by (induction s) (auto split: list.splits)

lemma splitOn_first:
  "sep \<notin> set p \<Longrightarrow> splitOn sep (p @ sep # r) = p # splitOn sep r"
  by (induction p) (auto split: list.splits)

lemma normalizeDate_isoDate:
  "normalizeDate parse s =
     (case newDate parse s of None \<Rightarrow> Inl InvalidDate | Some t \<Rightarrow> Inr (isoDate t))"
  by (simp add: normalizeDate_def toISOString_def splitOn_first[OF isoDate_no_T]
      split: option.splits)

lemma midnight_west:
  assumes "-720 \<le> tz" "tz \<le> (0::int)"
  shows "(1709596800000 - tz * 60000) div 86400000 = 19787"
proof (rule int_div_pos_eq[where r = "- tz * 60000"])
  show "1709596800000 - tz * 60000 = 86400000 * 19787 + - tz * 60000" by simp
  show "0 \<le> - tz * 60000" using assms by simp
  show "- tz * 60000 < 86400000" using assms by simp
qed

lemma midnight_east:
  assumes "0 < tz" "tz \<le> (840::int)"
  shows "(1709596800000 - tz * 60000) div 86400000 = 19786"
proof (rule int_div_pos_eq[where r = "86400000 - tz * 60000"])
  show "1709596800000 - tz * 60000 = 86400000 * 19786 + (86400000 - tz * 60000)" by simp
  show "0 \<le> 86400000 - tz * 60000" using assms by simp
  show "86400000 - tz * 60000 < 86400000" using assms by simp
qed

lemma parse_short_form:
  "nodeDateParse tz rest (str ''2024-3-5'') = Some (1709596800000 - tz * 60000)"
  by (simp add: js_defs date_defs)

lemma isoDate_5_March: "t div 86400000 = 19787 \<Longrightarrow> isoDate t = str ''2024-03-05''"
  by (simp add: js_defs date_defs)

lemma isoDate_4_March: "t div 86400000 = 19786 \<Longrightarrow> isoDate t = str ''2024-03-04''"
  by (simp add: js_defs date_defs)

lemma normalizeDate_west:
  assumes "-720 \<le> tz" "tz \<le> 0"
  shows "normalizeDate (nodeDateParse tz rest) (str ''2024-3-5'') = Inr (str ''2024-03-05'')"
proof -
  have "newDate (nodeDateParse tz rest) (str ''2024-3-5'') = Some (1709596800000 - tz * 60000)"
    using assms by (simp add: newDate_def parse_short_form maxTime_def)
  then show ?thesis
    by (simp add: normalizeDate_isoDate isoDate_5_March[OF midnight_west[OF assms]])
qed

lemma normalizeDate_east:
  assumes "0 < tz" "tz \<le> 840"
  shows "normalizeDate (nodeDateParse tz rest) (str ''2024-3-5'') = Inr (str ''2024-03-04'')"
proof -
  have "newDate (nodeDateParse tz rest) (str ''2024-3-5'') = Some (1709596800000 - tz * 60000)"
    using assms by (simp add: newDate_def parse_short_form maxTime_def)
  then show ?thesis
    by (simp add: normalizeDate_isoDate isoDate_4_March[OF midnight_east[OF assms]])
qed

lemma normalizeDate_iso_form:
  "normalizeDate (nodeDateParse tz rest) (str ''2024-03-05'') = Inr (str ''2024-03-05'')"
  by (simp add: js_defs date_defs)

lemma normalizeDate_not_a_date:
  "normalizeDate (nodeDateParse tz rest) (str ''not-a-date'') = Inl InvalidDate"
  by (simp add: js_defs date_defs)

lemma nodeDateParse_samples:
  "nodeDateParse 0 rest (str ''2024-02-31'') = Some (dayFromCivil 2024 3 2 * msPerDay) \<and>
   nodeDateParse 0 rest (str ''0049-3-5'') = Some (dayFromCivil 2049 3 5 * msPerDay) \<and>
   nodeDateParse 0 rest (str ''0049-03-05'') = Some (dayFromCivil 49 3 5 * msPerDay) \<and>
   nodeDateParse 0 rest (str ''0005-3-4'') = Some (dayFromCivil 2004 5 3 * msPerDay) \<and>
   nodeDateParse 0 rest (str ''2024-13-05'') = None \<and>
   nodeDateParse 0 rest (str ''March 5, 2024'') = rest (str ''March 5, 2024'')"
  by (simp add: js_defs date_defs)

text \<open>
  C2. \<open>normalizeDate("2024-3-5")\<close> is to return \<open>"2024-03-05"\<close>. On Node, on a host at
  UTC+05:30, the code returns \<open>"2024-03-04"\<close>: the string is read as midnight local
  time and printed as a date in UTC, which is the day before. The same date written as
  \<open>"2024-03-05"\<close> comes back unchanged on that host, and \<open>"2024-3-5"\<close> gives \<open>"2024-03-05"\<close>
  on a host at UTC; \<open>"not-a-date"\<close> fails on every host.
\<close>

theorem normalizeDate_local_midnight:
  "normalizeDate (nodeDateParse 330 rest) (str ''2024-3-5'') = Inr (str ''2024-03-04'') \<and>
   normalizeDate (nodeDateParse 330 rest) (str ''2024-03-05'') = Inr (str ''2024-03-05'') \<and>
   normalizeDate (nodeDateParse 0 rest) (str ''2024-3-5'') = Inr (str ''2024-03-05'') \<and>
   normalizeDate (nodeDateParse 330 rest) (str ''not-a-date'') = Inl InvalidDate"
proof (intro conjI)
  show "normalizeDate (nodeDateParse 330 rest) (str ''2024-3-5'') = Inr (str ''2024-03-04'')"
    by (rule normalizeDate_east) simp_all
  show "normalizeDate (nodeDateParse 330 rest) (str ''2024-03-05'') = Inr (str ''2024-03-05'')"
    by (rule normalizeDate_iso_form)
  show "normalizeDate (nodeDateParse 0 rest) (str ''2024-3-5'') = Inr (str ''2024-03-05'')"
    by (rule normalizeDate_west) simp_all
  show "normalizeDate (nodeDateParse 330 rest) (str ''not-a-date'') = Inl InvalidDate"
    by (rule normalizeDate_not_a_date)
qed

end
